theory Spec2Isabelle
  imports Complex_Main
begin

text \<open>
  A model of the batch importer \<^verbatim>\<open>scripts/processPayloads.mjs\<close> of the WhatsApp web
  backend, over the schema of \<^verbatim>\<open>models/Message.js\<close>: the JavaScript values a payload
  is made of, the conversions of the runtime that the script relies on, the
  \<^verbatim>\<open>Message\<close> collection with the two writes the script issues, and the functions of
  the script, each next to its source. The claims about them follow the lemmas. The
  older importer \<^verbatim>\<open>import.js\<close> and the HTTP server are not modelled.

  The script runs on a JavaScript engine and writes through Mongoose, and neither is
  part of the repository. What the ECMAScript standard, the schema and MongoDB fix is
  modelled here as it is; what they leave to the engine or to the version of the
  library (legacy date formats, the rounding of doubles, what the schema does with an
  array or an object in the place of a string) is a parameter \<open>pf\<close> of the model, and
  every statement below holds for every value of it.
\<close>

section \<open>JavaScript values and the operators the scripts use\<close>

text \<open>
  A payload is what \<^verbatim>\<open>JSON.parse\<close> returns. \<open>JUndef\<close> is JavaScript's
  \<^verbatim>\<open>undefined\<close>: it never occurs inside a parsed payload, but reading a missing
  property yields it. A number is the rational that its double denotes. An object is
  the list of its own properties, with distinct keys, as the parser builds it.
\<close>

datatype json =
    JUndef
  | JNull
  | JBool bool
  | JNum rat
  | JStr string
  | JArr "json list"
  | JObj "(string \<times> json) list"

text \<open>\<^verbatim>\<open>!x\<close> is \<open>\<not> truthy x\<close>; arrays and objects are always truthy.\<close>

fun truthy :: "json \<Rightarrow> bool" where
  "truthy JUndef = False"
| "truthy JNull = False"
| "truthy (JBool b) = b"
| "truthy (JNum n) = (n \<noteq> 0)"
| "truthy (JStr s) = (s \<noteq> [])"
| "truthy (JArr xs) = True"
| "truthy (JObj kvs) = True"

fun nullish :: "json \<Rightarrow> bool" where
  "nullish JUndef = True"
| "nullish JNull = True"
| "nullish v = False"

text \<open>\<^verbatim>\<open>a || b\<close> and \<^verbatim>\<open>a ?? b\<close>.\<close>

definition js_or :: "json \<Rightarrow> json \<Rightarrow> json" where
  "js_or a b = (if truthy a then a else b)"

definition js_nc :: "json \<Rightarrow> json \<Rightarrow> json" where
  "js_nc a b = (if nullish a then b else a)"

fun lookup :: "(string \<times> json) list \<Rightarrow> string \<Rightarrow> json" where
  "lookup [] k = JUndef"
| "lookup ((k', v) # kvs) k = (if k' = k then v else lookup kvs k)"

text \<open>
  \<open>field v k\<close> is the optional read \<^verbatim>\<open>v?.k\<close> for the property names the scripts
  use: \<^verbatim>\<open>undefined\<close> on \<^verbatim>\<open>null\<close> and \<^verbatim>\<open>undefined\<close>, the own property of
  an object, and \<^verbatim>\<open>undefined\<close> on a primitive or an array (none of the names read by
  the scripts is a built-in property of strings, numbers or booleans; on an array the
  one exception is \<^verbatim>\<open>entries\<close>, a method, which \<open>processFile\<close> only asks for its
  \<^verbatim>\<open>changes\<close>, and a function has none: the outcome is that of \<^verbatim>\<open>undefined\<close>).
  \<open>get v k\<close> is the plain read \<^verbatim>\<open>v.k\<close>, which throws a TypeError on \<^verbatim>\<open>null\<close>
  and \<^verbatim>\<open>undefined\<close>.
\<close>

fun field :: "json \<Rightarrow> string \<Rightarrow> json" where
  "field (JObj kvs) k = lookup kvs k"
| "field v k = JUndef"

datatype error =
    TypeError
  | SyntaxError string
  | CastError string

definition get :: "json \<Rightarrow> string \<Rightarrow> error + json" where
  "get v k = (if nullish v then Inl TypeError else Inr (field v k))"

text \<open>\<^verbatim>\<open>v?.[0]\<close>: the first element of an array, the first character of a string,
  the property \<^verbatim>\<open>"0"\<close> of an object.\<close>

fun idx0 :: "json \<Rightarrow> json" where
  "idx0 (JArr []) = JUndef"
| "idx0 (JArr (x # xs)) = x"
| "idx0 (JStr []) = JUndef"
| "idx0 (JStr (c # cs)) = JStr [c]"
| "idx0 (JObj kvs) = lookup kvs ''0''"
| "idx0 v = JUndef"

section \<open>The platform: the engine and the schema library\<close>

text \<open>
  A JavaScript number is a rational, an infinity or NaN. A \<^verbatim>\<open>Date\<close> object holds a
  whole number of milliseconds since the epoch, or NaN (an invalid date). A value
  handed to an update is refused by the schema (the write throws), assigned to its
  path (\<open>None\<close> is \<^verbatim>\<open>null\<close>), or left out of the update.
\<close>

datatype js_number = Num rat | PlusInfinity | MinusInfinity | NaN

datatype js_date = Instant int | InvalidDate

datatype cast_result = Refused error | Assign "string option" | Skip

text \<open>
  What the model takes from the platform, each only where the standard, the schema or
  the database does not fix the outcome:
  \<^item> \<open>engine_number s\<close>: \<^verbatim>\<open>Number(s)\<close> for a numeric literal \<open>s\<close> that is not a plain
    decimal integer up to \<open>2^53\<close> (a fraction, an exponent, a radix prefix, more
    digits than a double holds), and for a text with characters beyond ASCII;
  \<^item> \<open>engine_date s\<close>: \<^verbatim>\<open>new Date(s)\<close> for a text that holds a digit and is not one of
    the UTC forms of the standard's date-time format modelled below (offsets, local
    times, out-of-range fields, the engine's legacy formats);
  \<^item> \<open>engine_scaled r\<close>: \<^verbatim>\<open>new Date(r * 1000)\<close> for a number \<open>r\<close> that is not whole
    (the product is rounded to a double);
  \<^item> \<open>engine_text r\<close>: \<^verbatim>\<open>String(r)\<close> for a number that is not a whole number below
    \<open>10^21\<close> in absolute value;
  \<^item> \<open>schema_cast p v\<close>: what the schema makes of an array or an object \<open>v\<close> given as the
    new value of the String path \<open>p\<close>: the error it throws, or the text (or \<^verbatim>\<open>null\<close>)
    it stores;
  \<^item> \<open>schema_filter p v\<close>: what a filter \<^verbatim>\<open>{p: v}\<close> means for an array or an object
    \<open>v\<close> (a list of alternatives, an operator such as \<^verbatim>\<open>$ne\<close>): the error it
    throws, or the test it makes on the value of \<open>p\<close> in a document.
\<close>

record platform =
  engine_number :: "string \<Rightarrow> js_number"
  engine_date :: "string \<Rightarrow> js_date"
  engine_scaled :: "rat \<Rightarrow> js_date"
  engine_text :: "rat \<Rightarrow> string"
  schema_cast :: "string \<Rightarrow> json \<Rightarrow> error + string option"
  schema_filter :: "string \<Rightarrow> json \<Rightarrow> error + (string option \<Rightarrow> bool)"

subsection \<open>ToString\<close>

definition digit_char :: "nat \<Rightarrow> char" where
  "digit_char n = ''0123456789'' ! n"

fun show_nat :: "nat \<Rightarrow> string" where
  "show_nat n = (if n < 10 then [digit_char n] else show_nat (n div 10) @ [digit_char (n mod 10)])"

definition show_int :: "int \<Rightarrow> string" where
  "show_int i = (if i < 0 then CHR ''-'' # show_nat (nat (- i)) else show_nat (nat i))"

definition is_integer :: "rat \<Rightarrow> bool" where
  "is_integer r = (of_int \<lfloor>r\<rfloor> = r)"

text \<open>\<^verbatim>\<open>String(r)\<close>: a whole number below \<open>10^21\<close> in absolute value is written with
  all its digits.\<close>

definition text_of_number :: "platform \<Rightarrow> rat \<Rightarrow> string" where
  "text_of_number pf r =
     (if is_integer r \<and> \<bar>r\<bar> < 1000000000000000000000 then show_int \<lfloor>r\<rfloor> else engine_text pf r)"

fun join_comma :: "string list \<Rightarrow> string" where
  "join_comma [] = []"
| "join_comma [s] = s"
| "join_comma (s # t # ss) = s @ '','' @ join_comma (t # ss)"

text \<open>ToString of a value; an array joins its elements with commas, \<^verbatim>\<open>null\<close> and
  \<^verbatim>\<open>undefined\<close> elements giving the empty string.\<close>

fun js_toString :: "platform \<Rightarrow> json \<Rightarrow> string" where
  "js_toString pf JUndef = ''undefined''"
| "js_toString pf JNull = ''null''"
| "js_toString pf (JBool b) = (if b then ''true'' else ''false'')"
| "js_toString pf (JNum n) = text_of_number pf n"
| "js_toString pf (JStr s) = s"
| "js_toString pf (JArr xs) = join_comma (map (\<lambda>x. if nullish x then [] else js_toString pf x) xs)"
| "js_toString pf (JObj kvs) = ''[object Object]''"

subsection \<open>Number\<close>

definition ascii :: "string \<Rightarrow> bool" where
  "ascii s = list_all (\<lambda>c. (of_char c :: nat) < 128) s"

definition is_digit :: "char \<Rightarrow> bool" where
  "is_digit c = (48 \<le> (of_char c :: nat) \<and> (of_char c :: nat) \<le> 57)"

definition is_space :: "char \<Rightarrow> bool" where
  "is_space c = ((of_char c :: nat) = 32 \<or> (9 \<le> (of_char c :: nat) \<and> (of_char c :: nat) \<le> 13))"

definition digits_value :: "string \<Rightarrow> int" where
  "digits_value cs = foldl (\<lambda>a c. 10 * a + (int (of_char c) - 48)) 0 cs"

definition trim :: "string \<Rightarrow> string" where
  "trim s = rev (dropWhile is_space (rev (dropWhile is_space s)))"

definition all_digits :: "string \<Rightarrow> bool" where
  "all_digits cs = (cs \<noteq> [] \<and> list_all is_digit cs)"

definition strip_sign :: "string \<Rightarrow> string" where
  "strip_sign s = (case s of [] \<Rightarrow> [] | c # cs \<Rightarrow> if c = CHR ''+'' \<or> c = CHR ''-'' then cs else s)"

definition negative :: "string \<Rightarrow> bool" where
  "negative s = (case s of [] \<Rightarrow> False | c # cs \<Rightarrow> c = CHR ''-'')"

text \<open>
  The numeric literals of the standard's StringToNumber grammar: a decimal literal
  (\<^verbatim>\<open>Infinity\<close>, or digits with an optional fraction and exponent) with an optional
  sign, or an unsigned binary, octal or hexadecimal integer.
\<close>

definition exponent_ok :: "string \<Rightarrow> bool" where
  "exponent_ok r =
     (case r of [] \<Rightarrow> True
      | c # cs \<Rightarrow> (c = CHR ''e'' \<or> c = CHR ''E'') \<and> all_digits (strip_sign cs))"

definition decimal_body :: "string \<Rightarrow> bool" where
  "decimal_body s =
     (case dropWhile is_digit s of
        [] \<Rightarrow> s \<noteq> []
      | c # r \<Rightarrow>
          if c = CHR ''.''
          then (takeWhile is_digit s \<noteq> [] \<or> takeWhile is_digit r \<noteq> [])
               \<and> exponent_ok (dropWhile is_digit r)
          else takeWhile is_digit s \<noteq> [] \<and> exponent_ok (c # r))"

definition radix_literal :: "string \<Rightarrow> bool" where
  "radix_literal s =
     (case s of
        z # x # ds \<Rightarrow>
          z = CHR ''0'' \<and> ds \<noteq> []
          \<and> ((x \<in> set ''xX'' \<and> list_all (\<lambda>c. c \<in> set ''0123456789abcdefABCDEF'') ds)
             \<or> (x \<in> set ''oO'' \<and> list_all (\<lambda>c. c \<in> set ''01234567'') ds)
             \<or> (x \<in> set ''bB'' \<and> list_all (\<lambda>c. c \<in> set ''01'') ds))
      | _ \<Rightarrow> False)"

definition numeric_literal :: "string \<Rightarrow> bool" where
  "numeric_literal t =
     (strip_sign t = ''Infinity'' \<or> decimal_body (strip_sign t) \<or> radix_literal t)"

text \<open>
  StringToNumber. For an ASCII text: surrounding white space is dropped; the empty
  text is \<open>0\<close>; an optionally signed run of digits up to \<open>2^53\<close> is that integer;
  \<^verbatim>\<open>Infinity\<close> is an infinity; any other numeric literal is for the engine to
  evaluate; and a text that is no numeric literal is \<open>NaN\<close>. (Beyond ASCII the
  standard counts further characters as white space: such a text is the engine's.)
\<close>

definition stringToNumber :: "platform \<Rightarrow> string \<Rightarrow> js_number" where
  "stringToNumber pf s =
     (if \<not> ascii s then engine_number pf s
      else
        let t = trim s in
        if t = [] then Num 0
        else if all_digits (strip_sign t) \<and> digits_value (strip_sign t) \<le> 9007199254740992
        then Num (of_int (if negative t then - digits_value (strip_sign t)
                          else digits_value (strip_sign t)))
        else if strip_sign t = ''Infinity''
        then (if negative t then MinusInfinity else PlusInfinity)
        else if numeric_literal t then engine_number pf s
        else NaN)"

text \<open>\<^verbatim>\<open>Number(v)\<close>; an array or an object is first turned into its text.\<close>

fun Number :: "platform \<Rightarrow> json \<Rightarrow> js_number" where
  "Number pf JUndef = NaN"
| "Number pf JNull = Num 0"
| "Number pf (JBool b) = Num (if b then 1 else 0)"
| "Number pf (JNum n) = Num n"
| "Number pf (JStr s) = stringToNumber pf s"
| "Number pf v = stringToNumber pf (js_toString pf v)"

subsection \<open>Date\<close>

text \<open>TimeClip refuses anything beyond \<open>8.64 * 10^15\<close> ms.\<close>

definition timeClip :: "int \<Rightarrow> js_date" where
  "timeClip t = (if \<bar>t\<bar> \<le> 8640000000000000 then Instant t else InvalidDate)"

text \<open>
  \<^verbatim>\<open>new Date(n > 1e12 ? n : n * 1000)\<close> for the number \<open>n\<close>, as \<open>asDate\<close> builds it.
  Above \<open>10^12\<close> the number itself is clipped and truncated. At or below, a whole
  number times \<open>1000\<close> is exact as a double whenever the product is within the range
  of TimeClip, and beyond that range every rounding of it is refused as well; for a
  number that is not whole the product is the engine's. An infinity is an invalid
  date on both branches.
\<close>

fun date_of_number :: "platform \<Rightarrow> js_number \<Rightarrow> js_date" where
  "date_of_number pf (Num r) =
     (if r > 1000000000000
      then (if r > 8640000000000000 then InvalidDate else Instant \<lfloor>r\<rfloor>)
      else if is_integer r then timeClip (\<lfloor>r\<rfloor> * 1000)
      else engine_scaled pf r)"
| "date_of_number pf n = InvalidDate"

definition days_from_civil :: "int \<Rightarrow> int \<Rightarrow> int \<Rightarrow> int" where
  "days_from_civil y0 m d =
     (let y = (if m \<le> 2 then y0 - 1 else y0);
          era = y div 400;
          yoe = y - era * 400;
          doy = (153 * (if m > 2 then m - 3 else m + 9) + 2) div 5 + d - 1;
          doe = yoe * 365 + yoe div 4 - yoe div 100 + doy
      in era * 146097 + doe - 719468)"

definition leap_year :: "int \<Rightarrow> bool" where
  "leap_year y = (y mod 4 = 0 \<and> (y mod 100 \<noteq> 0 \<or> y mod 400 = 0))"

definition days_in_month :: "int \<Rightarrow> int \<Rightarrow> int" where
  "days_in_month y m =
     (if m = 2 then (if leap_year y then 29 else 28)
      else if m = 4 \<or> m = 6 \<or> m = 9 \<or> m = 11 then 30 else 31)"

definition num2 :: "char \<Rightarrow> char \<Rightarrow> int option" where
  "num2 a b = (if is_digit a \<and> is_digit b then Some (digits_value [a, b]) else None)"

definition num3 :: "char \<Rightarrow> char \<Rightarrow> char \<Rightarrow> int option" where
  "num3 a b c = (if list_all is_digit [a, b, c] then Some (digits_value [a, b, c]) else None)"

definition num4 :: "char \<Rightarrow> char \<Rightarrow> char \<Rightarrow> char \<Rightarrow> int option" where
  "num4 a b c d =
     (if list_all is_digit [a, b, c, d] then Some (digits_value [a, b, c, d]) else None)"

definition utc_ms :: "int option \<Rightarrow> int option \<Rightarrow> int option \<Rightarrow> int option \<Rightarrow> int option
    \<Rightarrow> int option \<Rightarrow> int option \<Rightarrow> int option" where
  "utc_ms yo mo do' ho mio so mso =
     (case (yo, mo, do', ho, mio, so, mso) of
        (Some y, Some m, Some d, Some h, Some mi, Some s, Some ms) \<Rightarrow>
          if 1 \<le> m \<and> m \<le> 12 \<and> 1 \<le> d \<and> d \<le> days_in_month y m
             \<and> h \<le> 23 \<and> mi \<le> 59 \<and> s \<le> 59
          then Some (((days_from_civil y m d * 24 + h) * 60 + mi) * 60000 + s * 1000 + ms)
          else None
      | _ \<Rightarrow> None)"

text \<open>
  Three UTC forms of the standard's date-time format, with every field in its range:
  \<^verbatim>\<open>YYYY-MM-DD\<close>, \<^verbatim>\<open>YYYY-MM-DDTHH:mm:ssZ\<close> and \<^verbatim>\<open>YYYY-MM-DDTHH:mm:ss.sssZ\<close>.
  \<open>iso_utc s\<close> is the time value of such a text, and \<open>None\<close> for any other text.
\<close>

fun iso_utc :: "string \<Rightarrow> int option" where
  "iso_utc [y1, y2, y3, y4, h1, m1, m2, h2, d1, d2] =
     (if h1 = CHR ''-'' \<and> h2 = CHR ''-''
      then utc_ms (num4 y1 y2 y3 y4) (num2 m1 m2) (num2 d1 d2) (Some 0) (Some 0) (Some 0) (Some 0)
      else None)"
| "iso_utc [y1, y2, y3, y4, h1, m1, m2, h2, d1, d2, t, a1, a2, c1, b1, b2, c2, s1, s2, z] =
     (if h1 = CHR ''-'' \<and> h2 = CHR ''-'' \<and> t = CHR ''T'' \<and> c1 = CHR '':'' \<and> c2 = CHR '':''
         \<and> z = CHR ''Z''
      then utc_ms (num4 y1 y2 y3 y4) (num2 m1 m2) (num2 d1 d2) (num2 a1 a2) (num2 b1 b2)
             (num2 s1 s2) (Some 0)
      else None)"
| "iso_utc [y1, y2, y3, y4, h1, m1, m2, h2, d1, d2, t, a1, a2, c1, b1, b2, c2, s1, s2, p,
            f1, f2, f3, z] =
     (if h1 = CHR ''-'' \<and> h2 = CHR ''-'' \<and> t = CHR ''T'' \<and> c1 = CHR '':'' \<and> c2 = CHR '':''
         \<and> p = CHR ''.'' \<and> z = CHR ''Z''
      then utc_ms (num4 y1 y2 y3 y4) (num2 m1 m2) (num2 d1 d2) (num2 a1 a2) (num2 b1 b2)
             (num2 s1 s2) (num3 f1 f2 f3)
      else None)"
| "iso_utc s = None"

text \<open>
  \<^verbatim>\<open>new Date(s)\<close> for a text: the instant of one of the three forms above; an invalid
  date for an ASCII text without any digit (no date format, of the standard or of an
  engine, does without one); and the engine's reading of any other text.
  \<^verbatim>\<open>new Date(v)\<close> for an array or an object parses its text.
\<close>

definition dateParse :: "platform \<Rightarrow> string \<Rightarrow> js_date" where
  "dateParse pf s =
     (case iso_utc s of
        Some t \<Rightarrow> Instant t
      | None \<Rightarrow> if ascii s \<and> \<not> list_ex is_digit s then InvalidDate else engine_date pf s)"

definition date_of_value :: "platform \<Rightarrow> json \<Rightarrow> js_date" where
  "date_of_value pf v = dateParse pf (js_toString pf v)"

section \<open>The message store\<close>

text \<open>
  A document of the \<^verbatim>\<open>Message\<close> collection, with the types of its schema
  (\<^verbatim>\<open>models/Message.js\<close>); \<open>msg_text\<close> is the schema's field \<^verbatim>\<open>text\<close>. A
  String path that was never set, or was set to \<^verbatim>\<open>null\<close>, is \<open>None\<close> (an update
  runs no validator, so \<^verbatim>\<open>required\<close> and \<^verbatim>\<open>enum\<close> do not constrain it). The
  collection is the list of its documents in insertion order.
\<close>

record doc =
  wa_id :: "string option"
  msg_id :: "string option"
  meta_msg_id :: "string option"
  msg_text :: "string option"
  timestamp :: int
  status :: "string option"
  profileName :: "string option"
  fromSelf :: bool

text \<open>
  The world the scripts run in: the collection, the number of times the clock has been
  read (\<^verbatim>\<open>new Date()\<close>; the \<open>k\<close>-th reading is \<open>clock k\<close>), the calls made to
  \<open>upsertMessage\<close> and \<open>applyStatus\<close> so far (each with the id it was given), and
  the lines written to the console.
\<close>

datatype call = CallUpsert json | CallStatus json

datatype log_line =
    Connected
  | NoFiles
  | Processing string
  | Done string
  | Failed string error
  | Disconnected

record world =
  db :: "doc list"
  ticks :: nat
  calls :: "call list"
  console :: "log_line list"

subsection \<open>What the schema does to the values of a write\<close>

text \<open>
  Mongoose casts every value of a filter or an update to the type of its path before
  the write, and the write throws when a value cannot be cast. On a String path a
  string is itself and a number or a boolean is its text (\<open>prim_text\<close>).
\<close>

fun prim_text :: "platform \<Rightarrow> json \<Rightarrow> string option" where
  "prim_text pf (JBool b) = Some (if b then ''true'' else ''false'')"
| "prim_text pf (JNum n) = Some (text_of_number pf n)"
| "prim_text pf (JStr s) = Some s"
| "prim_text pf v = None"

text \<open>
  A value of an update (\<^verbatim>\<open>$set\<close>, \<^verbatim>\<open>$setOnInsert\<close>) on a String path: a key whose
  value is \<^verbatim>\<open>undefined\<close> is left out of the update, \<^verbatim>\<open>null\<close> is stored as it is, a
  primitive as its text, and an array or an object as the schema decides.
\<close>

fun cast_update :: "platform \<Rightarrow> string \<Rightarrow> json \<Rightarrow> cast_result" where
  "cast_update pf p JUndef = Skip"
| "cast_update pf p JNull = Assign None"
| "cast_update pf p (JArr xs) =
     (case schema_cast pf p (JArr xs) of Inl e \<Rightarrow> Refused e | Inr x \<Rightarrow> Assign x)"
| "cast_update pf p (JObj kvs) =
     (case schema_cast pf p (JObj kvs) of Inl e \<Rightarrow> Refused e | Inr x \<Rightarrow> Assign x)"
| "cast_update pf p v = Assign (prim_text pf v)"

text \<open>
  A filter \<^verbatim>\<open>{p: v}\<close> on a String path, as the test it makes on the value of \<open>p\<close> in
  a document: equality with the text of a primitive; for \<^verbatim>\<open>null\<close> and
  \<^verbatim>\<open>undefined\<close> (which the driver sends as \<^verbatim>\<open>null\<close>), a document without that
  path; for an array or an object, what the schema makes of it.
\<close>

fun filter_string :: "platform \<Rightarrow> string \<Rightarrow> json \<Rightarrow> error + (string option \<Rightarrow> bool)" where
  "filter_string pf p JUndef = Inr (\<lambda>x. x = None)"
| "filter_string pf p JNull = Inr (\<lambda>x. x = None)"
| "filter_string pf p (JArr xs) = schema_filter pf p (JArr xs)"
| "filter_string pf p (JObj kvs) = schema_filter pf p (JObj kvs)"
| "filter_string pf p v = Inr (\<lambda>x. x = prim_text pf v)"

text \<open>The error of a refused value, if it is refused.\<close>

fun refusal :: "cast_result \<Rightarrow> error option" where
  "refusal (Refused e) = Some e"
| "refusal c = None"

text \<open>On the Date path an invalid date is refused.\<close>

fun castDate :: "string \<Rightarrow> js_date \<Rightarrow> error + int" where
  "castDate p (Instant t) = Inr t"
| "castDate p InvalidDate = Inl (CastError p)"

text \<open>The position of the first document that matches a filter, as \<^verbatim>\<open>updateOne\<close>
  and \<^verbatim>\<open>findOneAndUpdate\<close> pick it.\<close>

fun first_index :: "('a \<Rightarrow> bool) \<Rightarrow> 'a list \<Rightarrow> nat option" where
  "first_index P [] = None"
| "first_index P (x # xs) = (if P x then Some 0 else map_option Suc (first_index P xs))"

definition find_by_msg_id :: "(string option \<Rightarrow> bool) \<Rightarrow> doc list \<Rightarrow> nat option" where
  "find_by_msg_id P ds = first_index (\<lambda>d. P (msg_id d)) ds"

definition find_by_meta_msg_id :: "(string option \<Rightarrow> bool) \<Rightarrow> doc list \<Rightarrow> nat option" where
  "find_by_meta_msg_id P ds = first_index (\<lambda>d. P (meta_msg_id d)) ds"

text \<open>\<^verbatim>\<open>{ $set: { status } }\<close> on the document at position \<open>i\<close>, with the status as
  the schema cast it. A status left out of the update changes nothing.\<close>

definition set_status :: "cast_result \<Rightarrow> nat \<Rightarrow> doc list \<Rightarrow> doc list" where
  "set_status c i ds = (case c of Assign s \<Rightarrow> ds[i := (ds ! i)\<lparr>status := s\<rparr>] | _ \<Rightarrow> ds)"

section \<open>scripts/processPayloads.mjs\<close>

subsection \<open>asDate\<close>

text \<open>
  \<^verbatim>\<open>
  function asDate(ts) {
    if (!ts) return new Date();
    const n = Number(ts);
    if (!Number.isNaN(n)) { return new Date(n > 1e12 ? n : n * 1000); }
    return new Date(ts);
  }\<close>
\<close>

definition asDate :: "platform \<Rightarrow> (nat \<Rightarrow> int) \<Rightarrow> json \<Rightarrow> world \<Rightarrow> js_date \<times> world" where
  "asDate pf clock ts w =
     (if \<not> truthy ts then (Instant (clock (ticks w)), w\<lparr>ticks := Suc (ticks w)\<rparr>)
      else case Number pf ts of
             NaN \<Rightarrow> (date_of_value pf ts, w)
           | n \<Rightarrow> (date_of_number pf n, w))"

subsection \<open>upsertMessage\<close>

text \<open>
  The argument of \<open>upsertMessage\<close>, before its defaults are applied (\<open>JUndef\<close> is a
  property the caller left out). \<open>fromSelf\<close> is a boolean: the only caller passes the
  literal \<^verbatim>\<open>false\<close>.
\<close>

record msg_input =
  arg_wa_id :: json
  arg_msg_id :: json
  arg_meta_msg_id :: json
  arg_text :: json
  arg_timestamp :: json
  arg_status :: json
  arg_profileName :: json
  arg_fromSelf :: bool

text \<open>
  The document that an insert creates from \<^verbatim>\<open>$setOnInsert\<close> and \<^verbatim>\<open>$set\<close>
  together, cast by the schema: the defaults \<^verbatim>\<open>status = 'sent'\<close> and
  \<^verbatim>\<open>profileName = 'Unknown'\<close> stand in for \<^verbatim>\<open>undefined\<close>, and \<^verbatim>\<open>text ?? ''\<close>
  for a missing text. A key left out of the update leaves its path unset; the only
  one that can be \<^verbatim>\<open>undefined\<close> here is \<open>meta_msg_id\<close>, for which the schema has no
  default.
\<close>

definition default_arg :: "json \<Rightarrow> json \<Rightarrow> json" where
  "default_arg v d = (if v = JUndef then d else v)"

definition on_insert :: "platform \<Rightarrow> string \<Rightarrow> json \<Rightarrow> error + string option" where
  "on_insert pf p v =
     (case cast_update pf p v of Refused e \<Rightarrow> Inl e | Assign x \<Rightarrow> Inr x | Skip \<Rightarrow> Inr None)"

definition cast_message :: "platform \<Rightarrow> msg_input \<Rightarrow> js_date \<Rightarrow> error + doc" where
  "cast_message pf a d =
     (case on_insert pf ''msg_id'' (arg_msg_id a) of Inl e \<Rightarrow> Inl e | Inr k \<Rightarrow>
      case on_insert pf ''wa_id'' (arg_wa_id a) of Inl e \<Rightarrow> Inl e | Inr w \<Rightarrow>
      case on_insert pf ''meta_msg_id'' (arg_meta_msg_id a) of Inl e \<Rightarrow> Inl e | Inr m \<Rightarrow>
      case on_insert pf ''text'' (js_nc (arg_text a) (JStr [])) of Inl e \<Rightarrow> Inl e | Inr t \<Rightarrow>
      case castDate ''timestamp'' d of Inl e \<Rightarrow> Inl e | Inr ts \<Rightarrow>
      case on_insert pf ''profileName'' (default_arg (arg_profileName a) (JStr ''Unknown'')) of
        Inl e \<Rightarrow> Inl e | Inr pn \<Rightarrow>
      case on_insert pf ''status'' (default_arg (arg_status a) (JStr ''sent'')) of
        Inl e \<Rightarrow> Inl e | Inr st \<Rightarrow>
      Inr \<lparr>wa_id = w, msg_id = k, meta_msg_id = m, msg_text = t, timestamp = ts, status = st,
           profileName = pn, fromSelf = arg_fromSelf a\<rparr>)"

text \<open>
  \<^verbatim>\<open>
  async function upsertMessage({ wa_id, msg_id, meta_msg_id, text, timestamp,
                                 status = 'sent', profileName = 'Unknown', fromSelf = false }) {
    if (!wa_id || !msg_id) return;
    await MessageModel.updateOne({ msg_id },
      { $setOnInsert: { wa_id, msg_id, meta_msg_id, text: text ?? '',
                        timestamp: asDate(timestamp), profileName, fromSelf },
        $set: { status } },
      { upsert: true });
  }\<close>
  The filter and the update are cast first (a value the schema refuses makes the call
  throw before anything is written). The write then updates the status of the first
  document that the filter matches or, when there is none, inserts the whole document.
  The unique index on \<open>msg_id\<close> is not modelled: for an id that is a string, a
  number or a boolean the filter is the very equality that the index enforces, so an
  insert never meets a duplicate.
\<close>

definition upsertMessage :: "platform \<Rightarrow> (nat \<Rightarrow> int) \<Rightarrow> msg_input \<Rightarrow> world
    \<Rightarrow> world \<times> error option" where
  "upsertMessage pf clock a w0 =
     (let w = w0\<lparr>calls := calls w0 @ [CallUpsert (arg_msg_id a)]\<rparr> in
      if \<not> truthy (arg_wa_id a) \<or> \<not> truthy (arg_msg_id a) then (w, None)
      else
        case asDate pf clock (arg_timestamp a) w of (d, w1) \<Rightarrow>
        (case filter_string pf ''msg_id'' (arg_msg_id a) of
           Inl e \<Rightarrow> (w1, Some e)
         | Inr P \<Rightarrow>
             (case cast_message pf a d of
                Inl e \<Rightarrow> (w1, Some e)
              | Inr new \<Rightarrow>
                  (case find_by_msg_id P (db w1) of
                     Some i \<Rightarrow>
                       (w1\<lparr>db := set_status
                                   (cast_update pf ''status''
                                      (default_arg (arg_status a) (JStr ''sent'')))
                                   i (db w1)\<rparr>, None)
                   | None \<Rightarrow> (w1\<lparr>db := db w1 @ [new]\<rparr>, None)))))"

subsection \<open>applyStatus\<close>

record status_input =
  arg_id :: json
  arg_metaMsgId :: json
  arg_new_status :: json

text \<open>
  \<^verbatim>\<open>
  async function applyStatus({ id, metaMsgId, status }) {
    if (!id && !metaMsgId) return;
    const byMsgId = await MessageModel.findOneAndUpdate(
      { msg_id: id }, { $set: { status } }, { new: true });
    if (!byMsgId && metaMsgId) {
      await MessageModel.findOneAndUpdate(
        { meta_msg_id: metaMsgId }, { $set: { status } }, { new: true });
    }
  }\<close>
  The function returns nothing: its promise resolves to \<^verbatim>\<open>undefined\<close> on every
  path.
\<close>

definition applyStatus :: "platform \<Rightarrow> status_input \<Rightarrow> world \<Rightarrow> (world \<times> error option) \<times> json" where
  "applyStatus pf a w0 =
     (let w = w0\<lparr>calls := calls w0 @ [CallStatus (arg_id a)]\<rparr> in
      if \<not> truthy (arg_id a) \<and> \<not> truthy (arg_metaMsgId a) then ((w, None), JUndef)
      else
        case filter_string pf ''msg_id'' (arg_id a) of
          Inl e \<Rightarrow> ((w, Some e), JUndef)
        | Inr P \<Rightarrow>
        (let c = cast_update pf ''status'' (arg_new_status a) in
         case refusal c of
           Some e \<Rightarrow> ((w, Some e), JUndef)
         | None \<Rightarrow>
        (case find_by_msg_id P (db w) of
           Some i \<Rightarrow> ((w\<lparr>db := set_status c i (db w)\<rparr>, None), JUndef)
         | None \<Rightarrow>
             if truthy (arg_metaMsgId a) then
               (case filter_string pf ''meta_msg_id'' (arg_metaMsgId a) of
                  Inl e \<Rightarrow> ((w, Some e), JUndef)
                | Inr Q \<Rightarrow>
                    (case find_by_meta_msg_id Q (db w) of
                       Some j \<Rightarrow> ((w\<lparr>db := set_status c j (db w)\<rparr>, None), JUndef)
                     | None \<Rightarrow> ((w, None), JUndef)))
             else ((w, None), JUndef))))"
subsection \<open>extractContacts and asArray\<close>

text \<open>
  \<^verbatim>\<open>
  function extractContacts(payload) {
    const contact = payload?.contacts?.[0];
    const wa_id = contact?.wa_id || contact?.waId || payload?.wa_id || payload?.from?.id || null;
    const profileName = contact?.profile?.name || payload?.profile?.name ||
      payload?.value?.contacts?.[0]?.profile?.name || 'Unknown';
    return { wa_id, profileName };
  }\<close>
\<close>

definition extractContacts :: "json \<Rightarrow> json \<times> json" where
  "extractContacts payload =
     (let contact = idx0 (field payload ''contacts'') in
      (js_or (js_or (js_or (js_or (field contact ''wa_id'') (field contact ''waId''))
                 (field payload ''wa_id''))
             (field (field payload ''from'') ''id''))
         JNull,
       js_or (js_or (js_or (field (field contact ''profile'') ''name'')
                 (field (field payload ''profile'') ''name''))
             (field (field (idx0 (field (field payload ''value'') ''contacts'')) ''profile'') ''name''))
         (JStr ''Unknown'')))"

text \<open>
  \<^verbatim>\<open>
  function asArray(maybeArray) {
    if (!maybeArray) return [];
    return Array.isArray(maybeArray) ? maybeArray : [maybeArray];
  }\<close>
  \<open>head0 xs\<close> is \<^verbatim>\<open>xs[0]\<close> on such an array.
\<close>

definition asArray :: "json \<Rightarrow> json list" where
  "asArray v = (if \<not> truthy v then [] else case v of JArr xs \<Rightarrow> xs | _ \<Rightarrow> [v])"

fun head0 :: "json list \<Rightarrow> json" where
  "head0 [] = JUndef"
| "head0 (x # xs) = x"

subsection \<open>processFile\<close>

text \<open>
  The body of the first loop, up to the call: the argument built from one element
  \<open>m\<close> of the messages. \<^verbatim>\<open>m.id\<close> is a plain read and throws on a \<^verbatim>\<open>null\<close>
  element.
  \<^verbatim>\<open>
    const msg_id = m.id || m.msg_id;
    const wa_id = m?.from || m?.from?.id || fallbackWaId || m?.wa_id;
    const meta_msg_id = m?.context?.id || m?.meta_msg_id;
    const text = m?.text?.body ?? m?.text ?? m?.message ?? '';
    const ts = m?.timestamp || value?.timestamp || payload?.timestamp;
    await upsertMessage({ wa_id, msg_id, meta_msg_id, text, timestamp: ts,
      status: 'sent', profileName: fallbackProfile, fromSelf: false });\<close>
\<close>

definition message_input :: "json \<Rightarrow> json \<Rightarrow> json \<Rightarrow> json \<Rightarrow> json \<Rightarrow> error + msg_input" where
  "message_input payload v fallbackWaId fallbackProfile m =
     (case get m ''id'' of
        Inl e \<Rightarrow> Inl e
      | Inr mid \<Rightarrow>
          Inr \<lparr>arg_wa_id =
                 js_or (js_or (js_or (field m ''from'') (field (field m ''from'') ''id''))
                          fallbackWaId)
                   (field m ''wa_id''),
               arg_msg_id = js_or mid (field m ''msg_id''),
               arg_meta_msg_id = js_or (field (field m ''context'') ''id'') (field m ''meta_msg_id''),
               arg_text =
                 js_nc (js_nc (js_nc (field (field m ''text'') ''body'') (field m ''text''))
                          (field m ''message''))
                   (JStr []),
               arg_timestamp =
                 js_or (js_or (field m ''timestamp'') (field v ''timestamp''))
                   (field payload ''timestamp''),
               arg_status = JStr ''sent'',
               arg_profileName = fallbackProfile,
               arg_fromSelf = False\<rparr>)"

fun upsert_all :: "platform \<Rightarrow> (nat \<Rightarrow> int) \<Rightarrow> json \<Rightarrow> json \<Rightarrow> json \<Rightarrow> json \<Rightarrow> json list \<Rightarrow> world
    \<Rightarrow> world \<times> error option" where
  "upsert_all pf clock payload v fw fp [] w = (w, None)"
| "upsert_all pf clock payload v fw fp (m # ms) w =
     (case message_input payload v fw fp m of
        Inl e \<Rightarrow> (w, Some e)
      | Inr a \<Rightarrow>
          (case upsertMessage pf clock a w of
             (w', Some e) \<Rightarrow> (w', Some e)
           | (w', None) \<Rightarrow> upsert_all pf clock payload v fw fp ms w'))"

text \<open>
  The second loop.
  \<^verbatim>\<open>
    const status = s.status || s?.conversation?.status || s?.message_status;
    const id = s?.id || s?.message_id || s?.msg_id || s?.meta_msg_id;
    const metaMsgId = s?.meta_msg_id || s?.id;
    await applyStatus({ id, metaMsgId, status });\<close>
\<close>

definition status_input_of :: "json \<Rightarrow> error + status_input" where
  "status_input_of s =
     (case get s ''status'' of
        Inl e \<Rightarrow> Inl e
      | Inr st \<Rightarrow>
          Inr \<lparr>arg_id =
                 js_or (js_or (js_or (field s ''id'') (field s ''message_id'')) (field s ''msg_id''))
                   (field s ''meta_msg_id''),
               arg_metaMsgId = js_or (field s ''meta_msg_id'') (field s ''id''),
               arg_new_status =
                 js_or (js_or st (field (field s ''conversation'') ''status''))
                   (field s ''message_status'')\<rparr>)"

fun apply_all :: "platform \<Rightarrow> json list \<Rightarrow> world \<Rightarrow> world \<times> error option" where
  "apply_all pf [] w = (w, None)"
| "apply_all pf (s # ss) w =
     (case status_input_of s of
        Inl e \<Rightarrow> (w, Some e)
      | Inr a \<Rightarrow>
          (case fst (applyStatus pf a w) of
             (w', Some e) \<Rightarrow> (w', Some e)
           | (w', None) \<Rightarrow> apply_all pf ss w'))"

text \<open>
  \<open>processFile\<close> is given what reading and parsing the file yields: the error thrown
  by \<^verbatim>\<open>fs.readFile\<close> or \<^verbatim>\<open>JSON.parse\<close>, or the parsed payload.
  \<^verbatim>\<open>
    const entry = asArray(payload.entry || payload.entries)[0];
    const change = entry?.changes ? asArray(entry.changes)[0] : null;
    const value = change?.value || payload.value || payload;
    const messages = value?.messages || payload?.messages || [];
    const statuses = value?.statuses || value?.message_status || payload?.statuses || [];
    const { wa_id: fallbackWaId, profileName: fallbackProfile } = extractContacts(value);
    for (const m of asArray(messages)) { ... }
    for (const s of asArray(statuses)) { ... }\<close>
\<close>

definition container_of :: "json \<Rightarrow> json \<Rightarrow> json" where
  "container_of payload pe =
     (let entry = head0 (asArray (js_or pe (field payload ''entries'')));
          change = (if truthy (field entry ''changes'')
                    then head0 (asArray (field entry ''changes'')) else JNull)
      in js_or (js_or (field change ''value'') (field payload ''value'')) payload)"

definition messages_of :: "json \<Rightarrow> json \<Rightarrow> json list" where
  "messages_of payload v =
     asArray (js_or (js_or (field v ''messages'') (field payload ''messages'')) (JArr []))"

definition statuses_of :: "json \<Rightarrow> json \<Rightarrow> json list" where
  "statuses_of payload v =
     asArray (js_or (js_or (js_or (field v ''statuses'') (field v ''message_status''))
                       (field payload ''statuses''))
                (JArr []))"

definition processFile :: "platform \<Rightarrow> (nat \<Rightarrow> int) \<Rightarrow> error + json \<Rightarrow> world \<Rightarrow> world \<times> error option" where
  "processFile pf clock content w =
     (case content of
        Inl e \<Rightarrow> (w, Some e)
      | Inr payload \<Rightarrow>
          (case get payload ''entry'' of
             Inl e \<Rightarrow> (w, Some e)
           | Inr pe \<Rightarrow>
               (let v = container_of payload pe in
                case upsert_all pf clock payload v (fst (extractContacts v)) (snd (extractContacts v))
                       (messages_of payload v) w of
                  (w1, Some e) \<Rightarrow> (w1, Some e)
                | (w1, None) \<Rightarrow> apply_all pf (statuses_of payload v) w1)))"

subsection \<open>main\<close>

text \<open>
  The directory \<^verbatim>\<open>payloads/\<close> is the list of its file names, in the order
  \<^verbatim>\<open>readdir\<close> gives them, each with what reading and parsing it yields.
  \<^verbatim>\<open>
    const jsonFiles = files.filter(f => f.toLowerCase().endsWith('.json'));
    if (jsonFiles.length === 0) { console.log('No JSON files found in payloads/'); return; }
    for (const f of jsonFiles) {
      console.log(`Processing ${f} ...`);
      try { await processFile(fp); console.log(`Done: ${f}`); }
      catch (e) { console.error(`Failed: ${f}`, e.message); }
    }\<close>
  \<open>main\<close> returns nothing (\<^verbatim>\<open>undefined\<close>); what it reports is on the console.
\<close>

definition toLowerCase :: "string \<Rightarrow> string" where
  "toLowerCase s =
     map (\<lambda>c. case map_of (zip ''ABCDEFGHIJKLMNOPQRSTUVWXYZ'' ''abcdefghijklmnopqrstuvwxyz'') c of
                 None \<Rightarrow> c | Some l \<Rightarrow> l) s"

definition endsWith :: "string \<Rightarrow> string \<Rightarrow> bool" where
  "endsWith s t = (length t \<le> length s \<and> drop (length s - length t) s = t)"

fun process_files :: "platform \<Rightarrow> (nat \<Rightarrow> int) \<Rightarrow> (string \<times> (error + json)) list \<Rightarrow> world \<Rightarrow> world" where
  "process_files pf clock [] w = w"
| "process_files pf clock ((f, c) # fs) w =
     (case processFile pf clock c (w\<lparr>console := console w @ [Processing f]\<rparr>) of
        (w', None) \<Rightarrow> process_files pf clock fs (w'\<lparr>console := console w' @ [Done f]\<rparr>)
      | (w', Some e) \<Rightarrow> process_files pf clock fs (w'\<lparr>console := console w' @ [Failed f e]\<rparr>))"

definition json_files :: "(string \<times> (error + json)) list \<Rightarrow> (string \<times> (error + json)) list" where
  "json_files dir = filter (\<lambda>fc. endsWith (toLowerCase (fst fc)) ''.json'') dir"

definition main :: "platform \<Rightarrow> (nat \<Rightarrow> int) \<Rightarrow> (string \<times> (error + json)) list \<Rightarrow> world \<Rightarrow> world \<times> json" where
  "main pf clock dir w0 =
     (let w = w0\<lparr>console := console w0 @ [Connected]\<rparr> in
      if json_files dir = [] then (w\<lparr>console := console w @ [NoFiles, Disconnected]\<rparr>, JUndef)
      else
        (let w' = process_files pf clock (json_files dir) w
         in (w'\<lparr>console := console w' @ [Disconnected]\<rparr>, JUndef)))"

section \<open>Repeated ingestion, and the data of the examples\<close>

text \<open>\<open>ingest pf clock a n\<close> awaits \<open>upsertMessage\<close> on the same argument \<open>n\<close> times in a
  row; like any caller that awaits, it stops at the first call that throws.\<close>

fun ingest :: "platform \<Rightarrow> (nat \<Rightarrow> int) \<Rightarrow> msg_input \<Rightarrow> nat \<Rightarrow> world \<Rightarrow> world \<times> error option" where
  "ingest pf clock a 0 w = (w, None)"
| "ingest pf clock a (Suc n) w =
     (case upsertMessage pf clock a w of
        (w', Some e) \<Rightarrow> (w', Some e)
      | (w', None) \<Rightarrow> ingest pf clock a n w')"

definition empty_world :: world where
  "empty_world = \<lparr>db = [], ticks = 0, calls = [], console = []\<rparr>"

definition clock0 :: "nat \<Rightarrow> int" where
  "clock0 k = 1800000000000 + int k"

definition doc_m1 :: doc where
  "doc_m1 = \<lparr>wa_id = Some ''911'', msg_id = Some ''m1'', meta_msg_id = Some ''X'',
             msg_text = Some ''hi'', timestamp = 1700000000000, status = Some ''read'',
             profileName = Some ''Ann'', fromSelf = False\<rparr>"

definition doc_m2 :: doc where
  "doc_m2 = \<lparr>wa_id = Some ''911'', msg_id = Some ''m2'', meta_msg_id = None,
             msg_text = Some ''yo'', timestamp = 1700000000000, status = Some ''sent'',
             profileName = Some ''Unknown'', fromSelf = False\<rparr>"

definition world_m1 :: world where
  "world_m1 = \<lparr>db = [doc_m1], ticks = 0, calls = [], console = []\<rparr>"

definition status_by_id :: "string \<Rightarrow> string \<Rightarrow> status_input" where
  "status_by_id x s = \<lparr>arg_id = JStr x, arg_metaMsgId = JUndef, arg_new_status = JStr s\<rparr>"

definition status_by_both :: "string \<Rightarrow> string \<Rightarrow> status_input" where
  "status_by_both x s = \<lparr>arg_id = JStr x, arg_metaMsgId = JStr x, arg_new_status = JStr s\<rparr>"

definition msg_m1 :: json where
  "msg_m1 = JObj [(''id'', JStr ''m1''), (''from'', JStr ''911''),
                  (''timestamp'', JStr ''1700000000''), (''text'', JObj [(''body'', JStr ''hi'')])]"

definition input_m1 :: msg_input where
  "input_m1 = \<lparr>arg_wa_id = JStr ''911'', arg_msg_id = JStr ''m1'', arg_meta_msg_id = JUndef,
                arg_text = JStr ''hi'', arg_timestamp = JStr ''1700000000'', arg_status = JStr ''sent'',
                arg_profileName = JStr ''Unknown'', arg_fromSelf = False\<rparr>"

definition status_event :: "string \<Rightarrow> string \<Rightarrow> json" where
  "status_event x s = JObj [(''id'', JStr x), (''status'', JStr s)]"

definition input_no_wa :: msg_input where
  "input_no_wa = \<lparr>arg_wa_id = JUndef, arg_msg_id = JStr ''m1'', arg_meta_msg_id = JUndef,
                arg_text = JStr ''hi'', arg_timestamp = JStr ''1700000000'', arg_status = JStr ''sent'',
                arg_profileName = JStr ''Unknown'', arg_fromSelf = False\<rparr>"

definition msg_no_id :: json where
  "msg_no_id = JObj [(''from'', JStr ''911''), (''text'', JObj [(''body'', JStr ''lost'')])]"

definition msg_m2 :: json where
  "msg_m2 = JObj [(''id'', JStr ''m2''), (''from'', JStr ''911''),
                  (''timestamp'', JNum 1700000000000), (''text'', JStr ''yo'')]"

definition msg_m1_no_sender :: json where
  "msg_m1_no_sender = JObj [(''id'', JStr ''m1''), (''timestamp'', JStr ''1700000000''),
                            (''text'', JObj [(''body'', JStr ''hi'')])]"

text \<open>The nested envelope, a change with its discriminator, and the flat payload.\<close>

definition change_of :: "json \<Rightarrow> json \<Rightarrow> json" where
  "change_of f v = JObj [(''field'', f), (''value'', v)]"

definition envelope_of :: "json list list \<Rightarrow> json" where
  "envelope_of ess = JObj [(''entry'', JArr (map (\<lambda>cs. JObj [(''changes'', JArr cs)]) ess))]"

definition flat_payload :: "json list \<Rightarrow> json list \<Rightarrow> json" where
  "flat_payload ms ss = JObj [(''messages'', JArr ms), (''statuses'', JArr ss)]"

text \<open>The id that \<open>processFile\<close> hands to \<open>upsertMessage\<close> for a message, and to
  \<open>applyStatus\<close> for a status record.\<close>

definition msg_ref :: "json \<Rightarrow> json" where
  "msg_ref m = js_or (field m ''id'') (field m ''msg_id'')"

definition status_ref :: "json \<Rightarrow> json" where
  "status_ref s =
     js_or (js_or (js_or (field s ''id'') (field s ''message_id'')) (field s ''msg_id''))
       (field s ''meta_msg_id'')"

text \<open>The arguments that \<open>processFile\<close> resolves from the messages of a payload (or the
  error that resolving one throws), a batch of three sources whose second is malformed,
  and one whose second holds a \<^verbatim>\<open>null\<close> message.\<close>

definition message_inputs :: "json \<Rightarrow> (error + msg_input) list" where
  "message_inputs p =
     (let v = container_of p (field p ''entry'')
      in map (message_input p v (fst (extractContacts v)) (snd (extractContacts v)))
           (messages_of p v))"

definition batch3 :: "(string \<times> (error + json)) list" where
  "batch3 = [(''1.json'', Inr (flat_payload [msg_m1] [])),
             (''2.json'', Inl (SyntaxError ''Unexpected end of JSON input'')),
             (''3.json'', Inr (flat_payload [msg_m2] []))]"

definition batch_null :: "(string \<times> (error + json)) list" where
  "batch_null = [(''1.json'', Inr (flat_payload [msg_m1] [])),
                 (''2.json'', Inr (flat_payload [JNull] [])),
                 (''3.json'', Inr (flat_payload [msg_m2] []))]"

subsection \<open>A driver that isolates its sources\<close>

text \<open>
  What the batch driver is to do with the sources it is given, in the words of its
  contract: each source is processed in its turn, on the world the sources before it
  have left, whether or not they failed (\<open>isolated_run\<close>); and each gets two lines,
  the second saying that it is done or that it failed, with its own error
  (\<open>isolated_lines\<close>).
\<close>

fun isolated_run :: "platform \<Rightarrow> (nat \<Rightarrow> int) \<Rightarrow> (string \<times> (error + json)) list \<Rightarrow> world \<Rightarrow> world" where
  "isolated_run pf clock [] w = w"
| "isolated_run pf clock ((f, c) # fs) w = isolated_run pf clock fs (fst (processFile pf clock c w))"

fun isolated_lines :: "platform \<Rightarrow> (nat \<Rightarrow> int) \<Rightarrow> (string \<times> (error + json)) list \<Rightarrow> world
    \<Rightarrow> log_line list" where
  "isolated_lines pf clock [] w = []"
| "isolated_lines pf clock ((f, c) # fs) w =
     Processing f
     # (case snd (processFile pf clock c w) of None \<Rightarrow> Done f | Some e \<Rightarrow> Failed f e)
     # isolated_lines pf clock fs (fst (processFile pf clock c w))"

section \<open>Lemmas\<close>

lemmas number_eval =
  stringToNumber_def ascii_def trim_def is_space_def all_digits_def is_digit_def digits_value_def
  strip_sign_def negative_def is_integer_def


lemmas run_defs =
  upsertMessage_def message_input_def status_input_of_def applyStatus_def get_def js_or_def
  js_nc_def asDate_def cast_message_def on_insert_def default_arg_def timeClip_def
  find_by_msg_id_def find_by_meta_msg_id_def set_status_def

lemmas file_defs =
  processFile_def container_of_def messages_of_def statuses_of_def extractContacts_def asArray_def

subsection \<open>Timestamps\<close>




















subsection \<open>Finding a document\<close>

lemma first_index_None_iff: "first_index P xs = None \<longleftrightarrow> (\<forall>x\<in>set xs. \<not> P x)"
  by (induction xs) auto

lemma first_index_SomeD:
  "first_index P xs = Some i \<Longrightarrow> i < length xs \<and> P (xs ! i) \<and> (\<forall>j<i. \<not> P (xs ! j))"
proof (induction xs arbitrary: i)
  case Nil
  then show ?case by simp
next
  case (Cons x xs)
  show ?case
  proof (cases "P x")
    case True
    with Cons.prems show ?thesis by simp
  next
    case False
    with Cons.prems obtain k where k: "first_index P xs = Some k" "i = Suc k"
      by auto
    from Cons.IH[OF k(1)] False k(2) show ?thesis
      by (auto simp: less_Suc_eq_0_disj)
  qed
qed

subsection \<open>applyStatus\<close>

lemma applyStatus_returns: "snd (applyStatus pf a w) = JUndef"
  by (simp add: applyStatus_def Let_def split: sum.splits option.splits)

lemma applyStatus_primary:
  assumes "truthy (arg_id a) \<or> truthy (arg_metaMsgId a)"
    and "filter_string pf ''msg_id'' (arg_id a) = Inr P"
    and "refusal (cast_update pf ''status'' (arg_new_status a)) = None"
    and "find_by_msg_id P (db w) = Some i"
  shows "fst (applyStatus pf a w) =
          (w\<lparr>calls := calls w @ [CallStatus (arg_id a)],
             db := set_status (cast_update pf ''status'' (arg_new_status a)) i (db w)\<rparr>, None)"
  using assms by (auto simp add: applyStatus_def Let_def)

lemma applyStatus_fallback:
  assumes "truthy (arg_metaMsgId a)"
    and "filter_string pf ''msg_id'' (arg_id a) = Inr P"
    and "refusal (cast_update pf ''status'' (arg_new_status a)) = None"
    and "find_by_msg_id P (db w) = None"
    and "filter_string pf ''meta_msg_id'' (arg_metaMsgId a) = Inr Q"
    and "find_by_meta_msg_id Q (db w) = Some j"
  shows "fst (applyStatus pf a w) =
          (w\<lparr>calls := calls w @ [CallStatus (arg_id a)],
             db := set_status (cast_update pf ''status'' (arg_new_status a)) j (db w)\<rparr>, None)"
  using assms by (auto simp add: applyStatus_def Let_def)

lemma applyStatus_no_fallback:
  assumes "\<not> truthy (arg_metaMsgId a)"
    and "filter_string pf ''msg_id'' (arg_id a) = Inr P"
    and "find_by_msg_id P (db w) = None"
  shows "db (fst (fst (applyStatus pf a w))) = db w"
  using assms by (auto simp add: applyStatus_def Let_def split: sum.splits option.splits)

lemma applyStatus_unmatched:
  assumes "\<And>P. filter_string pf ''msg_id'' (arg_id a) = Inr P \<Longrightarrow> find_by_msg_id P (db w) = None"
    and "\<And>Q. truthy (arg_metaMsgId a) \<Longrightarrow> filter_string pf ''meta_msg_id'' (arg_metaMsgId a) = Inr Q
          \<Longrightarrow> find_by_meta_msg_id Q (db w) = None"
  shows "db (fst (fst (applyStatus pf a w))) = db w"
  using assms by (auto simp add: applyStatus_def Let_def split: sum.splits option.splits)

lemma applyStatus_frame:
  "ticks (fst (fst (applyStatus pf a w))) = ticks w
   \<and> console (fst (fst (applyStatus pf a w))) = console w
   \<and> calls (fst (fst (applyStatus pf a w))) = calls w @ [CallStatus (arg_id a)]"
  by (simp add: applyStatus_def Let_def split: sum.splits option.splits)

subsection \<open>upsertMessage\<close>

lemma prim_text_casts:
  assumes "prim_text pf v = Some k"
  shows "filter_string pf p v = Inr (\<lambda>x. x = Some k) \<and> cast_update pf p v = Assign (Some k)"
  using assms by (cases v) auto

lemma cast_update_default:
  "cast_update pf p (default_arg v d) = Skip \<Longrightarrow> d = JUndef"
  by (cases "default_arg v d") (auto simp add: default_arg_def split: if_splits sum.splits)

lemma map_msg_id_update:
  "map msg_id (ds[i := (ds ! i)\<lparr>status := s\<rparr>]) = map msg_id ds"
proof (cases "i < length ds")
  case True
  then show ?thesis
    by (intro nth_equalityI) (auto simp: nth_list_update)
next
  case False
  then show ?thesis by (simp add: not_less list_update_beyond)
qed

lemma map_msg_id_set_status: "map msg_id (set_status c i ds) = map msg_id ds"
  by (cases c) (simp_all add: set_status_def map_msg_id_update)

lemma first_index_map: "first_index (\<lambda>x. P (f x)) xs = first_index P (map f xs)"
  by (induction xs) auto

lemma first_index_append_new:
  "first_index P xs = None \<Longrightarrow> P y \<Longrightarrow> first_index P (xs @ [y]) = Some (length xs)"
  by (induction xs) (auto split: if_splits)

lemma asDate_frame:
  "db (snd (asDate pf clock ts w)) = db w \<and> calls (snd (asDate pf clock ts w)) = calls w
   \<and> console (snd (asDate pf clock ts w)) = console w"
  by (simp add: asDate_def split: js_number.splits)

lemma asDate_invalid_indep:
  "(fst (asDate pf clock ts w) = InvalidDate) = (fst (asDate pf clock' ts w') = InvalidDate)"
  by (simp add: asDate_def split: js_number.splits)

lemma asDate_fst_calls:
  "fst (asDate pf clock ts (w\<lparr>calls := c\<rparr>)) = fst (asDate pf clock ts w)"
  by (simp add: asDate_def split: js_number.splits)

lemma cast_message_Instant:
  "cast_message pf a (Instant t) = Inr new \<Longrightarrow>
     cast_message pf a (Instant t') = Inr (new\<lparr>timestamp := t'\<rparr>)"
  by (auto simp add: cast_message_def split: sum.splits)

lemma cast_message_Instant_err:
  "cast_message pf a (Instant t) = Inl e \<Longrightarrow> cast_message pf a (Instant t') = Inl e"
  by (auto simp add: cast_message_def split: sum.splits)

lemma cast_message_indep:
  assumes "(d = InvalidDate) = (d' = InvalidDate)"
  shows "(case cast_message pf a d of Inl e \<Rightarrow> Some e | Inr n \<Rightarrow> None)
       = (case cast_message pf a d' of Inl e \<Rightarrow> Some e | Inr n \<Rightarrow> None)"
proof (cases d)
  case (Instant t)
  with assms obtain t' where d': "d' = Instant t'" by (cases d') auto
  show ?thesis
    using cast_message_Instant[of pf a t _ t'] cast_message_Instant_err[of pf a t _ t']
    by (cases "cast_message pf a (Instant t)") (auto simp add: Instant d')
next
  case InvalidDate
  with assms show ?thesis by simp
qed

text \<open>Whether a call throws, and what, depends on its argument alone.\<close>

lemma upsertMessage_error:
  "snd (upsertMessage pf clock a w) =
     (if \<not> truthy (arg_wa_id a) \<or> \<not> truthy (arg_msg_id a) then None
      else case filter_string pf ''msg_id'' (arg_msg_id a) of
             Inl e \<Rightarrow> Some e
           | Inr P \<Rightarrow>
               (case cast_message pf a (fst (asDate pf clock (arg_timestamp a) w)) of
                  Inl e \<Rightarrow> Some e | Inr n \<Rightarrow> None))"
proof -
  let ?c = "w\<lparr>calls := calls w @ [CallUpsert (arg_msg_id a)]\<rparr>"
  obtain d w1 where d: "asDate pf clock (arg_timestamp a) ?c = (d, w1)"
    by (cases "asDate pf clock (arg_timestamp a) ?c")
  then have "fst (asDate pf clock (arg_timestamp a) w) = d"
    using asDate_fst_calls[where pf = pf and clock = clock and ts = "arg_timestamp a" and w = w
        and c = "calls w @ [CallUpsert (arg_msg_id a)]"]
    by simp
  with d show ?thesis
    by (simp add: upsertMessage_def Let_def split: sum.splits option.splits)
qed

lemma upsertMessage_error_indep:
  "snd (upsertMessage pf clock a w) = snd (upsertMessage pf clock' a w')"
  unfolding upsertMessage_error
  using cast_message_indep[OF asDate_invalid_indep[of pf clock "arg_timestamp a" w clock' w'], of pf a]
  by (simp split: sum.splits)

text \<open>The collection after a call: as it was, with the status of one document set, or
  with one document more.\<close>

lemma upsertMessage_db:
  "db (fst (upsertMessage pf clock a w)) = db w
   \<or> (\<exists>c i. db (fst (upsertMessage pf clock a w)) = set_status c i (db w))
   \<or> (\<exists>new. db (fst (upsertMessage pf clock a w)) = db w @ [new])"
proof -
  let ?c = "w\<lparr>calls := calls w @ [CallUpsert (arg_msg_id a)]\<rparr>"
  obtain d w1 where d: "asDate pf clock (arg_timestamp a) ?c = (d, w1)"
    by (cases "asDate pf clock (arg_timestamp a) ?c")
  have w1: "db w1 = db w"
    using asDate_frame[of pf clock "arg_timestamp a" ?c] d by simp
  show ?thesis
    using d w1
    by (auto simp add: upsertMessage_def Let_def split: sum.splits option.splits)
qed

lemma upsertMessage_accepted:
  assumes "truthy (arg_wa_id a)" "truthy (arg_msg_id a)"
    and "prim_text pf (arg_msg_id a) = Some k"
    and "snd (upsertMessage pf clock a w) = None"
  shows "\<exists>new. msg_id new = Some k
           \<and> cast_update pf ''status'' (default_arg (arg_status a) (JStr ''sent'')) = Assign (status new)
           \<and> db (fst (upsertMessage pf clock a w)) =
               (case first_index (\<lambda>x. msg_id x = Some k) (db w) of
                  Some i \<Rightarrow> (db w)[i := (db w ! i)\<lparr>status := status new\<rparr>]
                | None \<Rightarrow> db w @ [new])"
proof -
  let ?c = "w\<lparr>calls := calls w @ [CallUpsert (arg_msg_id a)]\<rparr>"
  let ?st = "cast_update pf ''status'' (default_arg (arg_status a) (JStr ''sent''))"
  obtain d w1 where d: "asDate pf clock (arg_timestamp a) ?c = (d, w1)"
    by (cases "asDate pf clock (arg_timestamp a) ?c")
  have w1: "db w1 = db w"
    using asDate_frame[of pf clock "arg_timestamp a" ?c] d by simp
  note pc = prim_text_casts[OF assms(3)]
  have f: "filter_string pf ''msg_id'' (arg_msg_id a) = Inr (\<lambda>x. x = Some k)"
    using pc by simp
  from assms d f obtain new where new: "cast_message pf a d = Inr new"
    by (auto simp add: upsertMessage_def Let_def split: sum.splits)
  from new pc have m: "msg_id new = Some k"
    by (auto simp add: cast_message_def on_insert_def split: sum.splits)
  from new have "on_insert pf ''status'' (default_arg (arg_status a) (JStr ''sent'')) = Inr (status new)"
    by (auto simp add: cast_message_def split: sum.splits)
  then have s: "?st = Assign (status new)"
    using cast_update_default[of pf "''status''" "arg_status a" "JStr ''sent''"]
    by (cases ?st) (auto simp add: on_insert_def)
  have "db (fst (upsertMessage pf clock a w)) =
               (case first_index (\<lambda>x. msg_id x = Some k) (db w) of
                  Some i \<Rightarrow> (db w)[i := (db w ! i)\<lparr>status := status new\<rparr>]
                | None \<Rightarrow> db w @ [new])"
    using assms(1,2) d new f w1 s
    by (simp add: upsertMessage_def Let_def find_by_msg_id_def set_status_def split: option.splits)
  with m s show ?thesis by blast
qed

lemma upsertMessage_msg_ids:
  assumes "truthy (arg_wa_id a)" "truthy (arg_msg_id a)"
    and "prim_text pf (arg_msg_id a) = Some k"
    and "snd (upsertMessage pf clock a w) = None"
  shows "map msg_id (db (fst (upsertMessage pf clock a w))) =
           (if Some k \<in> msg_id ` set (db w) then map msg_id (db w)
            else map msg_id (db w) @ [Some k])"
proof -
  from upsertMessage_accepted[OF assms] obtain new where
    m: "msg_id new = Some k" and
    d: "db (fst (upsertMessage pf clock a w)) =
               (case first_index (\<lambda>x. msg_id x = Some k) (db w) of
                  Some i \<Rightarrow> (db w)[i := (db w ! i)\<lparr>status := status new\<rparr>]
                | None \<Rightarrow> db w @ [new])" by blast
  show ?thesis
  proof (cases "first_index (\<lambda>x. msg_id x = Some k) (db w)")
    case None
    then have "Some k \<notin> msg_id ` set (db w)"
      by (auto simp add: first_index_None_iff)
    with None d m show ?thesis by simp
  next
    case (Some i)
    from first_index_SomeD[OF Some] have "Some k \<in> msg_id ` set (db w)"
      by (metis imageI nth_mem)
    with Some d show ?thesis by (simp add: map_msg_id_update)
  qed
qed

lemma upsertMessage_again:
  assumes "truthy (arg_wa_id a)" "truthy (arg_msg_id a)"
    and "prim_text pf (arg_msg_id a) = Some k"
    and "snd (upsertMessage pf clock a w) = None"
  shows "db (fst (upsertMessage pf clock' a (fst (upsertMessage pf clock a w))))
           = db (fst (upsertMessage pf clock a w))"
proof -
  let ?w1 = "fst (upsertMessage pf clock a w)"
  let ?st = "cast_update pf ''status'' (default_arg (arg_status a) (JStr ''sent''))"
  from upsertMessage_accepted[OF assms] obtain new where
    m: "msg_id new = Some k" and
    s: "?st = Assign (status new)" and
    d: "db ?w1 =
               (case first_index (\<lambda>x. msg_id x = Some k) (db w) of
                  Some i \<Rightarrow> (db w)[i := (db w ! i)\<lparr>status := status new\<rparr>]
                | None \<Rightarrow> db w @ [new])" by blast
  have acc: "snd (upsertMessage pf clock' a ?w1) = None"
    using assms(4) upsertMessage_error_indep[of pf clock' a ?w1 clock w] by simp
  from upsertMessage_accepted[OF assms(1,2,3) acc] obtain new' where
    s': "?st = Assign (status new')" and
    d': "db (fst (upsertMessage pf clock' a ?w1)) =
               (case first_index (\<lambda>x. msg_id x = Some k) (db ?w1) of
                  Some i \<Rightarrow> (db ?w1)[i := (db ?w1 ! i)\<lparr>status := status new'\<rparr>]
                | None \<Rightarrow> db ?w1 @ [new'])" by blast
  from s s' have eq: "status new' = status new" by simp
  have "\<exists>i. first_index (\<lambda>x. msg_id x = Some k) (db ?w1) = Some i \<and> i < length (db ?w1)
            \<and> status (db ?w1 ! i) = status new"
  proof (cases "first_index (\<lambda>x. msg_id x = Some k) (db w)")
    case None
    with d m show ?thesis by (simp add: first_index_append_new)
  next
    case (Some i)
    have "first_index (\<lambda>x. msg_id x = Some k) (db ?w1)
        = first_index (\<lambda>y. y = Some k) (map msg_id (db ?w1))"
      by (rule first_index_map)
    also have "map msg_id (db ?w1) = map msg_id (db w)"
      using d Some by (simp add: map_msg_id_update)
    also have "first_index (\<lambda>y. y = Some k) (map msg_id (db w)) = Some i"
      using Some by (simp add: first_index_map[symmetric])
    finally show ?thesis
      using first_index_SomeD[OF Some] d Some by simp
  qed
  then obtain i where i: "first_index (\<lambda>x. msg_id x = Some k) (db ?w1) = Some i" "i < length (db ?w1)"
    "status (db ?w1 ! i) = status new" by blast
  have "(db ?w1 ! i)\<lparr>status := status new\<rparr> = db ?w1 ! i"
    using i(3) by (cases "db ?w1 ! i") simp
  with d' i eq show ?thesis by (simp add: list_update_id)
qed

lemma count_msg_id:
  "length (filter (\<lambda>d. msg_id d = k) ds) = length (filter (\<lambda>y. y = k) (map msg_id ds))"
  by (induction ds) auto

lemma ingest_after_first:
  assumes "truthy (arg_wa_id a)" "truthy (arg_msg_id a)"
    and "prim_text pf (arg_msg_id a) = Some k"
    and "snd (upsertMessage pf clock a w) = None"
  shows "snd (ingest pf clock a (Suc n) w) = None
       \<and> db (fst (ingest pf clock a (Suc n) w)) = db (fst (upsertMessage pf clock a w))"
  using assms(4)
proof (induction n arbitrary: w)
  case 0
  then show ?case by (cases "upsertMessage pf clock a w") auto
next
  case (Suc n)
  let ?w1 = "fst (upsertMessage pf clock a w)"
  have acc: "snd (upsertMessage pf clock a ?w1) = None"
    using Suc.prems upsertMessage_error_indep[of pf clock a ?w1 clock w] by simp
  have step: "ingest pf clock a (Suc (Suc n)) w = ingest pf clock a (Suc n) ?w1"
    using Suc.prems by (cases "upsertMessage pf clock a w") simp
  from Suc.IH[OF acc] upsertMessage_again[OF assms(1,2,3) Suc.prems, of clock]
  show ?case unfolding step by simp
qed

subsection \<open>The loops of processFile\<close>

lemma upsert_all_append:
  "upsert_all pf clock payload v fw fp (xs @ ys) w =
     (case upsert_all pf clock payload v fw fp xs w of
        (w', Some e) \<Rightarrow> (w', Some e)
      | (w', None) \<Rightarrow> upsert_all pf clock payload v fw fp ys w')"
  by (induction xs arbitrary: w) (auto split: sum.splits prod.splits option.splits)

lemma asDate_same_store:
  assumes "db w = db w'" "ticks w = ticks w'"
  shows "fst (asDate pf clock ts w) = fst (asDate pf clock ts w')
       \<and> db (snd (asDate pf clock ts w)) = db (snd (asDate pf clock ts w'))
       \<and> ticks (snd (asDate pf clock ts w)) = ticks (snd (asDate pf clock ts w'))"
  using assms by (simp add: asDate_def split: js_number.splits)

lemma upsertMessage_same_store:
  assumes "db w = db w'" "ticks w = ticks w'"
  shows "db (fst (upsertMessage pf clock a w)) = db (fst (upsertMessage pf clock a w'))
       \<and> ticks (fst (upsertMessage pf clock a w)) = ticks (fst (upsertMessage pf clock a w'))
       \<and> snd (upsertMessage pf clock a w) = snd (upsertMessage pf clock a w')"
proof -
  let ?c = "\<lambda>w. w\<lparr>calls := calls w @ [CallUpsert (arg_msg_id a)]\<rparr>"
  have e: "db (?c w) = db (?c w')" "ticks (?c w) = ticks (?c w')"
    using assms by simp_all
  obtain d w1 where d: "asDate pf clock (arg_timestamp a) (?c w) = (d, w1)"
    by (cases "asDate pf clock (arg_timestamp a) (?c w)")
  obtain d' w1' where d': "asDate pf clock (arg_timestamp a) (?c w') = (d', w1')"
    by (cases "asDate pf clock (arg_timestamp a) (?c w')")
  from asDate_same_store[OF e, of pf clock "arg_timestamp a"] d d'
  have s: "d = d'" "db w1 = db w1'" "ticks w1 = ticks w1'" by simp_all
  show ?thesis
    using assms d d' s
    by (simp add: upsertMessage_def Let_def split: sum.splits option.splits)
qed

lemma upsert_all_same_store:
  assumes "db w = db w'" "ticks w = ticks w'"
  shows "db (fst (upsert_all pf clock payload v fw fp ms w)) = db (fst (upsert_all pf clock payload v fw fp ms w'))
       \<and> ticks (fst (upsert_all pf clock payload v fw fp ms w)) = ticks (fst (upsert_all pf clock payload v fw fp ms w'))
       \<and> snd (upsert_all pf clock payload v fw fp ms w) = snd (upsert_all pf clock payload v fw fp ms w')"
  using assms
proof (induction ms arbitrary: w w')
  case Nil
  then show ?case by simp
next
  case (Cons m ms)
  show ?case
  proof (cases "message_input payload v fw fp m")
    case (Inl e)
    with Cons.prems show ?thesis by simp
  next
    case (Inr a)
    obtain w1 r where u: "upsertMessage pf clock a w = (w1, r)"
      by (cases "upsertMessage pf clock a w")
    obtain w1' r' where u': "upsertMessage pf clock a w' = (w1', r')"
      by (cases "upsertMessage pf clock a w'")
    from upsertMessage_same_store[OF Cons.prems, of pf clock a] u u'
    have s: "db w1 = db w1'" "ticks w1 = ticks w1'" "r' = r" by simp_all
    note u'' = u'[unfolded s(3)]
    show ?thesis
    proof (cases r)
      case None
      with Inr u u'' Cons.IH[OF s(1,2)] show ?thesis by simp
    next
      case (Some e)
      with Inr u u'' s(1,2) show ?thesis by simp
    qed
  qed
qed

lemma upsertMessage_invalid:
  "\<not> truthy (arg_wa_id a) \<or> \<not> truthy (arg_msg_id a) \<Longrightarrow>
   upsertMessage pf clock a w = (w\<lparr>calls := calls w @ [CallUpsert (arg_msg_id a)]\<rparr>, None)"
  by (auto simp add: upsertMessage_def Let_def)

lemma upsert_all_skips_invalid:
  assumes "message_input payload v fw fp m = Inr a"
    and "\<not> truthy (arg_wa_id a) \<or> \<not> truthy (arg_msg_id a)"
  shows "db (fst (upsert_all pf clock payload v fw fp (ms1 @ m # ms2) w))
           = db (fst (upsert_all pf clock payload v fw fp (ms1 @ ms2) w))
       \<and> snd (upsert_all pf clock payload v fw fp (ms1 @ m # ms2) w)
           = snd (upsert_all pf clock payload v fw fp (ms1 @ ms2) w)"
proof -
  note inv = upsertMessage_invalid[OF assms(2)]
  obtain w1 r where pre: "upsert_all pf clock payload v fw fp ms1 w = (w1, r)"
    by (cases "upsert_all pf clock payload v fw fp ms1 w")
  let ?w1' = "w1\<lparr>calls := calls w1 @ [CallUpsert (arg_msg_id a)]\<rparr>"
  have skip: "upsert_all pf clock payload v fw fp (m # ms2) w1 = upsert_all pf clock payload v fw fp ms2 ?w1'"
    using assms(1) inv[of pf clock w1] by simp
  have same: "db (fst (upsert_all pf clock payload v fw fp ms2 ?w1')) = db (fst (upsert_all pf clock payload v fw fp ms2 w1))
       \<and> snd (upsert_all pf clock payload v fw fp ms2 ?w1') = snd (upsert_all pf clock payload v fw fp ms2 w1)"
    using upsert_all_same_store[of ?w1' w1 pf clock payload v fw fp ms2] by simp
  show ?thesis
    using pre skip same by (cases r) (simp_all add: upsert_all_append del: upsert_all.simps)
qed

lemma upsertMessage_ids_mono:
  "msg_id ` set (db w) \<subseteq> msg_id ` set (db (fst (upsertMessage pf clock a w)))"
proof -
  from upsertMessage_db[of pf clock a w]
  have "set (map msg_id (db w)) \<subseteq> set (map msg_id (db (fst (upsertMessage pf clock a w))))"
    by (auto simp add: map_msg_id_set_status simp del: set_map)
  then show ?thesis by simp
qed

lemma upsertMessage_stores:
  assumes "truthy (arg_wa_id a)" "truthy (arg_msg_id a)"
    and "prim_text pf (arg_msg_id a) = Some k"
    and "snd (upsertMessage pf clock a w) = None"
  shows "Some k \<in> msg_id ` set (db (fst (upsertMessage pf clock a w)))"
proof -
  have "Some k \<in> set (map msg_id (db (fst (upsertMessage pf clock a w))))"
    unfolding upsertMessage_msg_ids[OF assms] by (auto split: if_splits)
  then show ?thesis by simp
qed

lemma upsert_all_ids_mono:
  "msg_id ` set (db w) \<subseteq> msg_id ` set (db (fst (upsert_all pf clock payload v fw fp ms w)))"
proof (induction ms arbitrary: w)
  case Nil
  then show ?case by simp
next
  case (Cons m ms)
  show ?case
  proof (cases "message_input payload v fw fp m")
    case (Inl e)
    then show ?thesis by simp
  next
    case (Inr a)
    obtain w1 r where u: "upsertMessage pf clock a w = (w1, r)"
      by (cases "upsertMessage pf clock a w")
    from upsertMessage_ids_mono[of w pf clock a] u
    have m1: "msg_id ` set (db w) \<subseteq> msg_id ` set (db w1)" by simp
    show ?thesis
    proof (cases r)
      case None
      with Inr u m1 Cons.IH[of w1] show ?thesis by auto
    next
      case (Some e)
      with Inr u m1 show ?thesis by simp
    qed
  qed
qed

lemma upsert_all_stores:
  assumes "snd (upsert_all pf clock payload v fw fp ms w) = None"
    and "m \<in> set ms"
    and "message_input payload v fw fp m = Inr a"
    and "truthy (arg_wa_id a)" "truthy (arg_msg_id a)"
    and "prim_text pf (arg_msg_id a) = Some k"
  shows "Some k \<in> msg_id ` set (db (fst (upsert_all pf clock payload v fw fp ms w)))"
  using assms(1,2)
proof (induction ms arbitrary: w)
  case Nil
  then show ?case by simp
next
  case (Cons m0 ms)
  from Cons.prems(1) obtain a0 where a0: "message_input payload v fw fp m0 = Inr a0"
    by (cases "message_input payload v fw fp m0") auto
  obtain w1 r where u: "upsertMessage pf clock a0 w = (w1, r)"
    by (cases "upsertMessage pf clock a0 w")
  from Cons.prems(1) a0 u have r: "r = None"
    by (cases r) auto
  have rest: "upsert_all pf clock payload v fw fp (m0 # ms) w = upsert_all pf clock payload v fw fp ms w1"
    using a0 u r by simp
  have ok: "snd (upsert_all pf clock payload v fw fp ms w1) = None"
    using Cons.prems(1) rest by simp
  show ?case
  proof (cases "m \<in> set ms")
    case True
    from Cons.IH[OF ok True] rest show ?thesis by simp
  next
    case False
    with Cons.prems(2) have "m = m0" by simp
    with a0 assms(3) have "a0 = a" by simp
    with u r assms(4,5,6) upsertMessage_stores[of a pf k clock w]
    have "Some k \<in> msg_id ` set (db w1)" by simp
    with upsert_all_ids_mono[of w1 pf clock payload v fw fp ms] rest show ?thesis by auto
  qed
qed

lemma cast_message_ts:
  "cast_message pf (a\<lparr>arg_timestamp := t\<rparr>) d = cast_message pf a d"
  by (simp add: cast_message_def cong: sum.case_cong)

lemma upsertMessage_ts_falsy:
  assumes "\<not> truthy t" "\<not> truthy t'"
  shows "upsertMessage pf clock (a\<lparr>arg_timestamp := t\<rparr>) w = upsertMessage pf clock (a\<lparr>arg_timestamp := t'\<rparr>) w"
  using assms
  by (simp add: upsertMessage_def asDate_def cast_message_ts Let_def
      cong: sum.case_cong option.case_cong)

lemma message_input_status:
  "message_input payload v fw fp m = Inr a \<Longrightarrow> arg_status a = JStr ''sent''"
  by (auto simp add: message_input_def split: sum.splits)

lemma message_input_envelope:
  assumes "field p ''timestamp'' = JUndef"
  shows "(case message_input p v fw fp m of Inl e \<Rightarrow> (w, Some e) | Inr a \<Rightarrow> upsertMessage pf clock a w)
       = (case message_input v v fw fp m of Inl e \<Rightarrow> (w, Some e) | Inr a \<Rightarrow> upsertMessage pf clock a w)"
proof (cases "get m ''id''")
  case (Inl e)
  then show ?thesis by (simp add: message_input_def)
next
  case (Inr mid)
  let ?x = "js_or (field m ''timestamp'') (field v ''timestamp'')"
  obtain a where a: "message_input v v fw fp m = Inr a"
    using Inr by (simp add: message_input_def)
  have p: "message_input p v fw fp m = Inr (a\<lparr>arg_timestamp := js_or ?x JUndef\<rparr>)"
    using Inr a assms by (auto simp add: message_input_def)
  have av: "a = a\<lparr>arg_timestamp := js_or ?x (field v ''timestamp'')\<rparr>"
    using Inr a by (auto simp add: message_input_def)
  show ?thesis
  proof (cases "truthy ?x")
    case True
    then have "js_or ?x JUndef = js_or ?x (field v ''timestamp'')"
      by (simp add: js_or_def)
    with p av a show ?thesis by simp
  next
    case False
    then have f: "\<not> truthy (js_or ?x JUndef)" "\<not> truthy (js_or ?x (field v ''timestamp''))"
      by (auto simp add: js_or_def split: if_splits)
    have "upsertMessage pf clock (a\<lparr>arg_timestamp := js_or ?x JUndef\<rparr>) w
        = upsertMessage pf clock (a\<lparr>arg_timestamp := js_or ?x (field v ''timestamp'')\<rparr>) w"
      by (rule upsertMessage_ts_falsy[OF f])
    with p av a show ?thesis by simp
  qed
qed

lemma upsert_all_envelope:
  assumes "field p ''timestamp'' = JUndef"
  shows "upsert_all pf clock p v fw fp ms w = upsert_all pf clock v v fw fp ms w"
proof (induction ms arbitrary: w)
  case Nil
  then show ?case by simp
next
  case (Cons m ms)
  have "upsert_all pf clock p v fw fp (m # ms) w =
      (case (case message_input p v fw fp m of Inl e \<Rightarrow> (w, Some e) | Inr a \<Rightarrow> upsertMessage pf clock a w) of
         (w', Some e) \<Rightarrow> (w', Some e)
       | (w', None) \<Rightarrow> upsert_all pf clock p v fw fp ms w')"
    by (simp split: sum.splits)
  also have "\<dots> =
      (case (case message_input v v fw fp m of Inl e \<Rightarrow> (w, Some e) | Inr a \<Rightarrow> upsertMessage pf clock a w) of
         (w', Some e) \<Rightarrow> (w', Some e)
       | (w', None) \<Rightarrow> upsert_all pf clock v v fw fp ms w')"
    by (simp add: message_input_envelope[OF assms] Cons.IH cong: prod.case_cong option.case_cong)
  also have "\<dots> = upsert_all pf clock v v fw fp (m # ms) w"
    by (simp split: sum.splits)
  finally show ?case .
qed

lemma message_input_ref:
  "message_input payload v fw fp m = Inr a \<Longrightarrow> arg_msg_id a = msg_ref m"
  by (auto simp add: message_input_def msg_ref_def get_def split: if_splits)

lemma status_input_ref:
  "status_input_of s = Inr a \<Longrightarrow> arg_id a = status_ref s"
  by (auto simp add: status_input_of_def status_ref_def get_def split: if_splits)

lemma upsertMessage_frame:
  "calls (fst (upsertMessage pf clock a w)) = calls w @ [CallUpsert (arg_msg_id a)]
   \<and> console (fst (upsertMessage pf clock a w)) = console w"
proof -
  let ?c = "w\<lparr>calls := calls w @ [CallUpsert (arg_msg_id a)]\<rparr>"
  obtain d w1 where d: "asDate pf clock (arg_timestamp a) ?c = (d, w1)"
    by (cases "asDate pf clock (arg_timestamp a) ?c")
  from asDate_frame[of pf clock "arg_timestamp a" ?c] d
  have "calls w1 = calls w @ [CallUpsert (arg_msg_id a)]" "console w1 = console w"
    by simp_all
  with d show ?thesis
    by (simp add: upsertMessage_def Let_def split: sum.splits option.splits)
qed

lemma upsert_all_calls:
  "\<exists>k\<le>length ms.
      calls (fst (upsert_all pf clock payload v fw fp ms w))
        = calls w @ map (\<lambda>m. CallUpsert (msg_ref m)) (take k ms)
      \<and> (snd (upsert_all pf clock payload v fw fp ms w) = None \<longrightarrow> k = length ms)"
proof (induction ms arbitrary: w)
  case Nil
  then show ?case by simp
next
  case (Cons m ms)
  show ?case
  proof (cases "message_input payload v fw fp m")
    case (Inl e)
    then have "upsert_all pf clock payload v fw fp (m # ms) w = (w, Some e)" by simp
    then show ?thesis by (intro exI[of _ 0]) (simp del: upsert_all.simps)
  next
    case (Inr a)
    obtain w1 r where u: "upsertMessage pf clock a w = (w1, r)"
      by (cases "upsertMessage pf clock a w")
    have c1: "calls w1 = calls w @ [CallUpsert (msg_ref m)]"
      using upsertMessage_frame[of pf clock a w] u message_input_ref[OF Inr] by simp
    show ?thesis
    proof (cases r)
      case (Some e)
      with Inr u have "upsert_all pf clock payload v fw fp (m # ms) w = (w1, Some e)" by simp
      with c1 show ?thesis by (intro exI[of _ "Suc 0"]) (simp del: upsert_all.simps)
    next
      case None
      with Inr u have step: "upsert_all pf clock payload v fw fp (m # ms) w
          = upsert_all pf clock payload v fw fp ms w1" by simp
      from Cons.IH[of w1] obtain k where k: "k \<le> length ms"
        "calls (fst (upsert_all pf clock payload v fw fp ms w1))
           = calls w1 @ map (\<lambda>m. CallUpsert (msg_ref m)) (take k ms)"
        "snd (upsert_all pf clock payload v fw fp ms w1) = None \<longrightarrow> k = length ms"
        by auto
      show ?thesis
        unfolding step using k c1 by (intro exI[of _ "Suc k"]) (simp del: upsert_all.simps)
    qed
  qed
qed

lemma apply_all_calls:
  "\<exists>j\<le>length ss.
      calls (fst (apply_all pf ss w)) = calls w @ map (\<lambda>s. CallStatus (status_ref s)) (take j ss)"
proof (induction ss arbitrary: w)
  case Nil
  then show ?case by simp
next
  case (Cons s ss)
  show ?case
  proof (cases "status_input_of s")
    case (Inl e)
    then have "apply_all pf (s # ss) w = (w, Some e)" by simp
    then show ?thesis by (intro exI[of _ 0]) (simp del: apply_all.simps)
  next
    case (Inr a)
    obtain w1 r where u: "fst (applyStatus pf a w) = (w1, r)"
      by (cases "fst (applyStatus pf a w)")
    have c1: "calls w1 = calls w @ [CallStatus (status_ref s)]"
      using applyStatus_frame[of pf a w] u status_input_ref[OF Inr] by simp
    show ?thesis
    proof (cases r)
      case (Some e)
      with Inr u have "apply_all pf (s # ss) w = (w1, Some e)" by simp
      with c1 show ?thesis by (intro exI[of _ "Suc 0"]) (simp del: apply_all.simps)
    next
      case None
      with Inr u have step: "apply_all pf (s # ss) w = apply_all pf ss w1" by simp
      from Cons.IH[of w1] obtain j where j: "j \<le> length ss"
        "calls (fst (apply_all pf ss w1)) = calls w1 @ map (\<lambda>s. CallStatus (status_ref s)) (take j ss)"
        by auto
      show ?thesis
        unfolding step using j c1 by (intro exI[of _ "Suc j"]) (simp del: apply_all.simps)
    qed
  qed
qed

subsection \<open>The console is only written\<close>

lemma asDate_console:
  "asDate pf clock ts (w\<lparr>console := x\<rparr>)
     = (fst (asDate pf clock ts w), (snd (asDate pf clock ts w))\<lparr>console := x\<rparr>)"
  by (simp add: asDate_def split: js_number.splits)

lemma upsertMessage_console:
  "upsertMessage pf clock a (w\<lparr>console := x\<rparr>)
     = ((fst (upsertMessage pf clock a w))\<lparr>console := x\<rparr>, snd (upsertMessage pf clock a w))"
proof -
  let ?c = "w\<lparr>calls := calls w @ [CallUpsert (arg_msg_id a)]\<rparr>"
  obtain d w1 where d: "asDate pf clock (arg_timestamp a) ?c = (d, w1)"
    by (cases "asDate pf clock (arg_timestamp a) ?c")
  have c: "(w\<lparr>console := x\<rparr>)\<lparr>calls := calls (w\<lparr>console := x\<rparr>) @ [CallUpsert (arg_msg_id a)]\<rparr>
      = ?c\<lparr>console := x\<rparr>" by simp
  have d': "asDate pf clock (arg_timestamp a) (?c\<lparr>console := x\<rparr>) = (d, w1\<lparr>console := x\<rparr>)"
    using asDate_console[of pf clock "arg_timestamp a" x ?c] d by simp
  show ?thesis
    unfolding upsertMessage_def Let_def c
    by (simp add: d d' split: sum.splits option.splits)
qed

lemma applyStatus_console:
  "fst (applyStatus pf a (w\<lparr>console := x\<rparr>))
     = ((fst (fst (applyStatus pf a w)))\<lparr>console := x\<rparr>, snd (fst (applyStatus pf a w)))"
  by (simp add: applyStatus_def Let_def split: sum.splits option.splits)

lemma upsert_all_console:
  "upsert_all pf clock payload v fw fp ms (w\<lparr>console := x\<rparr>)
     = ((fst (upsert_all pf clock payload v fw fp ms w))\<lparr>console := x\<rparr>,
        snd (upsert_all pf clock payload v fw fp ms w))"
proof (induction ms arbitrary: w)
  case Nil
  then show ?case by simp
next
  case (Cons m ms)
  show ?case
  proof (cases "message_input payload v fw fp m")
    case (Inl e)
    then show ?thesis by simp
  next
    case (Inr a)
    obtain w1 r where u: "upsertMessage pf clock a w = (w1, r)"
      by (cases "upsertMessage pf clock a w")
    then have u': "upsertMessage pf clock a (w\<lparr>console := x\<rparr>) = (w1\<lparr>console := x\<rparr>, r)"
      by (simp add: upsertMessage_console)
    show ?thesis
      using Inr u u' Cons.IH[of w1] by (cases r) simp_all
  qed
qed

lemma apply_all_console:
  "apply_all pf ss (w\<lparr>console := x\<rparr>)
     = ((fst (apply_all pf ss w))\<lparr>console := x\<rparr>, snd (apply_all pf ss w))"
proof (induction ss arbitrary: w)
  case Nil
  then show ?case by simp
next
  case (Cons s ss)
  show ?case
  proof (cases "status_input_of s")
    case (Inl e)
    then show ?thesis by simp
  next
    case (Inr a)
    obtain w1 r where u: "fst (applyStatus pf a w) = (w1, r)"
      by (cases "fst (applyStatus pf a w)")
    then have u': "fst (applyStatus pf a (w\<lparr>console := x\<rparr>)) = (w1\<lparr>console := x\<rparr>, r)"
      by (simp add: applyStatus_console)
    show ?thesis
      using Inr u u' Cons.IH[of w1] by (cases r) simp_all
  qed
qed

lemma processFile_console:
  "processFile pf clock c (w\<lparr>console := x\<rparr>)
     = ((fst (processFile pf clock c w))\<lparr>console := x\<rparr>, snd (processFile pf clock c w))"
proof (cases c)
  case (Inl e)
  then show ?thesis by (simp add: processFile_def)
next
  case (Inr p)
  show ?thesis
  proof (cases "nullish p")
    case True
    with Inr show ?thesis by (simp add: processFile_def get_def)
  next
    case False
    let ?v = "container_of p (field p ''entry'')"
    obtain w1 r where u: "upsert_all pf clock p ?v (fst (extractContacts ?v)) (snd (extractContacts ?v))
          (messages_of p ?v) w = (w1, r)"
      by (cases "upsert_all pf clock p ?v (fst (extractContacts ?v)) (snd (extractContacts ?v))
          (messages_of p ?v) w")
    then have u': "upsert_all pf clock p ?v (fst (extractContacts ?v)) (snd (extractContacts ?v))
          (messages_of p ?v) (w\<lparr>console := x\<rparr>) = (w1\<lparr>console := x\<rparr>, r)"
      by (simp add: upsert_all_console)
    show ?thesis
      using Inr False u u'
      by (cases r) (simp_all add: processFile_def get_def Let_def apply_all_console)
  qed
qed

lemma processFile_console_frame: "console (fst (processFile pf clock c w)) = console w"
proof -
  have "processFile pf clock c w = processFile pf clock c (w\<lparr>console := console w\<rparr>)" by simp
  also have "\<dots> = ((fst (processFile pf clock c w))\<lparr>console := console w\<rparr>, snd (processFile pf clock c w))"
    by (rule processFile_console)
  finally have "fst (processFile pf clock c w) = (fst (processFile pf clock c w))\<lparr>console := console w\<rparr>"
    by (metis fst_conv)
  then show ?thesis by (metis world.select_convs(4) world.surjective world.update_convs(4))
qed

subsection \<open>The loop of main\<close>

lemma process_files_step:
  "process_files pf clock ((f, c) # fs) w =
     process_files pf clock fs
       ((fst (processFile pf clock c w))\<lparr>console := console w @
            [Processing f, case snd (processFile pf clock c w) of None \<Rightarrow> Done f | Some e \<Rightarrow> Failed f e]\<rparr>)"
proof -
  obtain w1 r where u: "processFile pf clock c w = (w1, r)"
    by (cases "processFile pf clock c w")
  then have "processFile pf clock c (w\<lparr>console := console w @ [Processing f]\<rparr>)
      = (w1\<lparr>console := console w @ [Processing f]\<rparr>, r)"
    by (simp add: processFile_console)
  with u show ?thesis by (cases r) simp_all
qed

lemma isolated_run_console:
  "isolated_run pf clock fs (w\<lparr>console := x\<rparr>) = (isolated_run pf clock fs w)\<lparr>console := x\<rparr>"
proof (induction fs arbitrary: w)
  case Nil
  then show ?case by simp
next
  case (Cons fc fs)
  obtain f c where fc: "fc = (f, c)" by (cases fc)
  show ?case
    unfolding fc by (simp add: processFile_console Cons.IH)
qed

lemma isolated_lines_console:
  "isolated_lines pf clock fs (w\<lparr>console := x\<rparr>) = isolated_lines pf clock fs w"
proof (induction fs arbitrary: w)
  case Nil
  then show ?case by simp
next
  case (Cons fc fs)
  obtain f c where fc: "fc = (f, c)" by (cases fc)
  show ?case
    unfolding fc by (simp add: processFile_console Cons.IH)
qed

text \<open>The loop of \<open>main\<close> is the isolating driver: it leaves the world that running the
  sources one after the other leaves, and writes their lines.\<close>

lemma process_files_isolated:
  "process_files pf clock fs w
     = (isolated_run pf clock fs w)\<lparr>console := console w @ isolated_lines pf clock fs w\<rparr>"
proof (induction fs arbitrary: w)
  case Nil
  then show ?case by simp
next
  case (Cons fc fs)
  obtain f c where fc: "fc = (f, c)" by (cases fc)
  let ?w1 = "fst (processFile pf clock c w)"
  let ?l = "[Processing f, case snd (processFile pf clock c w) of None \<Rightarrow> Done f | Some e \<Rightarrow> Failed f e]"
  have "process_files pf clock (fc # fs) w = process_files pf clock fs (?w1\<lparr>console := console w @ ?l\<rparr>)"
    unfolding fc by (rule process_files_step)
  also have "\<dots> = (isolated_run pf clock fs ?w1)\<lparr>console := (console w @ ?l) @ isolated_lines pf clock fs ?w1\<rparr>"
    unfolding Cons.IH by (simp add: isolated_run_console isolated_lines_console)
  finally show ?case
    unfolding fc by simp
qed

lemma isolated_run_append:
  "isolated_run pf clock (xs @ ys) w = isolated_run pf clock ys (isolated_run pf clock xs w)"
proof (induction xs arbitrary: w)
  case Nil
  then show ?case by simp
next
  case (Cons x xs)
  obtain f c where x: "x = (f, c)" by (cases x)
  show ?case unfolding x by (simp add: Cons.IH)
qed

lemma isolated_lines_append:
  "isolated_lines pf clock (xs @ ys) w
     = isolated_lines pf clock xs w @ isolated_lines pf clock ys (isolated_run pf clock xs w)"
proof (induction xs arbitrary: w)
  case Nil
  then show ?case by simp
next
  case (Cons x xs)
  obtain f c where x: "x = (f, c)" by (cases x)
  show ?case unfolding x by (simp add: Cons.IH)
qed

lemma applyStatus_ids:
  "map msg_id (db (fst (fst (applyStatus pf a w)))) = map msg_id (db w)"
  by (simp add: applyStatus_def Let_def map_msg_id_set_status
      split: sum.splits option.splits)

lemma apply_all_ids:
  "map msg_id (db (fst (apply_all pf ss w))) = map msg_id (db w)"
proof (induction ss arbitrary: w)
  case Nil
  then show ?case by simp
next
  case (Cons s ss)
  show ?case
  proof (cases "status_input_of s")
    case (Inl e)
    then show ?thesis by simp
  next
    case (Inr a)
    obtain w1 r where u: "fst (applyStatus pf a w) = (w1, r)"
      by (cases "fst (applyStatus pf a w)")
    with applyStatus_ids[of pf a w] have "map msg_id (db w1) = map msg_id (db w)" by simp
    with Inr u Cons.IH[of w1] show ?thesis by (cases r) simp_all
  qed
qed

lemma processFile_payload:
  assumes "\<not> nullish p"
  shows "processFile pf clock (Inr p) w =
     (let v = container_of p (field p ''entry'');
          u = upsert_all pf clock p v (fst (extractContacts v)) (snd (extractContacts v)) (messages_of p v) w
      in case snd u of Some e \<Rightarrow> u | None \<Rightarrow> apply_all pf (statuses_of p v) (fst u))"
  using assms
  by (simp add: processFile_def get_def Let_def split: prod.splits option.splits)

lemma processFile_ids_mono:
  "msg_id ` set (db w) \<subseteq> msg_id ` set (db (fst (processFile pf clock c w)))"
proof (cases c)
  case (Inl e)
  then show ?thesis by (simp add: processFile_def)
next
  case (Inr p)
  show ?thesis
  proof (cases "nullish p")
    case True
    with Inr show ?thesis by (simp add: processFile_def get_def)
  next
    case False
    let ?v = "container_of p (field p ''entry'')"
    let ?u = "upsert_all pf clock p ?v (fst (extractContacts ?v)) (snd (extractContacts ?v)) (messages_of p ?v) w"
    have m: "msg_id ` set (db w) \<subseteq> msg_id ` set (db (fst ?u))"
      by (rule upsert_all_ids_mono)
    have "set (map msg_id (db (fst (apply_all pf (statuses_of p ?v) (fst ?u))))) = set (map msg_id (db (fst ?u)))"
      by (simp only: apply_all_ids)
    then have a: "msg_id ` set (db (fst (apply_all pf (statuses_of p ?v) (fst ?u)))) = msg_id ` set (db (fst ?u))"
      by simp
    show ?thesis
      unfolding Inr processFile_payload[OF False] Let_def
      using m a by (cases "snd ?u") simp_all
  qed
qed

lemma processFile_stores:
  assumes "snd (processFile pf clock (Inr p) w) = None"
    and "Inr a \<in> set (message_inputs p)"
    and "truthy (arg_wa_id a)" "truthy (arg_msg_id a)"
    and "prim_text pf (arg_msg_id a) = Some k"
  shows "Some k \<in> msg_id ` set (db (fst (processFile pf clock (Inr p) w)))"
proof -
  have nn: "\<not> nullish p"
    using assms(1) by (auto simp add: processFile_def get_def split: if_splits)
  let ?v = "container_of p (field p ''entry'')"
  let ?u = "upsert_all pf clock p ?v (fst (extractContacts ?v)) (snd (extractContacts ?v)) (messages_of p ?v) w"
  from assms(2) obtain m where m: "m \<in> set (messages_of p ?v)"
    "message_input p ?v (fst (extractContacts ?v)) (snd (extractContacts ?v)) m = Inr a"
    by (auto simp add: message_inputs_def Let_def)
  have ok: "snd ?u = None"
    using assms(1) unfolding processFile_payload[OF nn] Let_def
    by (cases "snd ?u") simp_all
  then have pf: "processFile pf clock (Inr p) w = apply_all pf (statuses_of p ?v) (fst ?u)"
    unfolding processFile_payload[OF nn] Let_def by simp
  have "Some k \<in> msg_id ` set (db (fst ?u))"
    by (rule upsert_all_stores[OF ok m assms(3,4,5)])
  also have "msg_id ` set (db (fst ?u)) = set (map msg_id (db (fst ?u)))" by simp
  also have "\<dots> = set (map msg_id (db (fst (apply_all pf (statuses_of p ?v) (fst ?u)))))"
    by (simp only: apply_all_ids)
  finally show ?thesis unfolding pf by simp
qed

lemma isolated_run_ids_mono:
  "msg_id ` set (db w) \<subseteq> msg_id ` set (db (isolated_run pf clock fs w))"
proof (induction fs arbitrary: w)
  case Nil
  then show ?case by simp
next
  case (Cons fc fs)
  obtain f c where fc: "fc = (f, c)" by (cases fc)
  have "msg_id ` set (db w) \<subseteq> msg_id ` set (db (fst (processFile pf clock c w)))"
    by (rule processFile_ids_mono)
  also have "\<dots> \<subseteq> msg_id ` set (db (isolated_run pf clock fs (fst (processFile pf clock c w))))"
    by (rule Cons.IH)
  finally show ?case unfolding fc by simp
qed

lemma json_files_split:
  assumes "endsWith (toLowerCase f) ''.json''"
  shows "json_files (pre @ (f, c) # post) = json_files pre @ (f, c) # json_files post"
  using assms by (simp add: json_files_def)

lemma main_world:
  "fst (main pf clock dir w) =
     (isolated_run pf clock (json_files dir) w)
       \<lparr>console := console w @ Connected #
          (if json_files dir = [] then [NoFiles] else isolated_lines pf clock (json_files dir) w)
          @ [Disconnected]\<rparr>"
proof (cases "json_files dir = []")
  case True
  then show ?thesis by (simp add: main_def Let_def)
next
  case False
  then show ?thesis
    by (simp add: main_def Let_def process_files_isolated isolated_run_console isolated_lines_console)
qed

section \<open>The claims\<close>

subsection \<open>C1: idempotent create\<close>

text \<open>
  C1, as the code has it. For a message input with a non-empty \<open>wa_id\<close> and a non-empty
  \<open>msg_id\<close> that is a string, a number or a boolean (\<open>k\<close> is its text), whose first
  ingestion the platform accepts (the call does not throw), on a collection that holds
  at most one document with that id: after \<open>N \<ge> 1\<close> ingestions no call has thrown,
  exactly one document has the id \<open>k\<close>, and the collection is what it was after the
  first ingestion, so every later ingestion leaves every field of every document, the
  content fields among them, unchanged.
\<close>

theorem upsertMessage_idempotent:
  assumes "truthy (arg_wa_id a)" and "truthy (arg_msg_id a)"
    and "prim_text pf (arg_msg_id a) = Some k"
    and "snd (upsertMessage pf clock a w) = None"
    and "length (filter (\<lambda>d. msg_id d = Some k) (db w)) \<le> 1"
  shows "snd (ingest pf clock a (Suc n) w) = None
       \<and> length (filter (\<lambda>d. msg_id d = Some k) (db (fst (ingest pf clock a (Suc n) w)))) = 1
       \<and> db (fst (ingest pf clock a (Suc n) w)) = db (fst (ingest pf clock a (Suc 0) w))"
proof -
  let ?w1 = "fst (upsertMessage pf clock a w)"
  note after = ingest_after_first[OF assms(1,2,3,4)]
  have ids: "map msg_id (db ?w1) =
           (if Some k \<in> msg_id ` set (db w) then map msg_id (db w) else map msg_id (db w) @ [Some k])"
    by (rule upsertMessage_msg_ids[OF assms(1,2,3,4)])
  have one: "length (filter (\<lambda>d. msg_id d = Some k) (db ?w1)) = 1"
  proof (cases "Some k \<in> msg_id ` set (db w)")
    case True
    then have "filter (\<lambda>d. msg_id d = Some k) (db w) \<noteq> []"
      by (auto simp add: filter_empty_conv)
    then have "length (filter (\<lambda>d. msg_id d = Some k) (db w)) = 1"
      using assms(5) by (cases "filter (\<lambda>d. msg_id d = Some k) (db w)") auto
    with True ids show ?thesis by (simp add: count_msg_id)
  next
    case False
    then have "filter (\<lambda>y. y = Some k) (map msg_id (db w)) = []"
      by (force simp add: filter_empty_conv)
    with False ids show ?thesis by (simp add: count_msg_id)
  qed
  from after[of n] after[of 0] one show ?thesis by simp
qed

theorem upsertMessage_idempotent_witness:
  "\<forall>pf. truthy (arg_wa_id input_m1) \<and> truthy (arg_msg_id input_m1)
   \<and> prim_text pf (arg_msg_id input_m1) = Some ''m1''
   \<and> snd (upsertMessage pf clock0 input_m1 empty_world) = None
   \<and> length (filter (\<lambda>d. msg_id d = Some ''m1'') (db empty_world)) \<le> 1
   \<and> snd (ingest pf clock0 input_m1 (Suc (Suc (Suc 0))) empty_world) = None
   \<and> length (filter (\<lambda>d. msg_id d = Some ''m1'')
                   (db (fst (ingest pf clock0 input_m1 (Suc (Suc (Suc 0))) empty_world)))) = 1
   \<and> db (fst (ingest pf clock0 input_m1 (Suc (Suc (Suc 0))) empty_world))
       = [doc_m1\<lparr>meta_msg_id := None, status := Some ''sent'', profileName := Some ''Unknown''\<rparr>]
   \<and> prim_text pf (arg_msg_id (input_m1\<lparr>arg_msg_id := JNum 42\<rparr>)) = Some ''42''
   \<and> snd (upsertMessage pf clock0 (input_m1\<lparr>arg_msg_id := JNum 42\<rparr>) world_m1) = None
   \<and> length (filter (\<lambda>d. msg_id d = Some ''42'') (db world_m1)) \<le> 1
   \<and> map msg_id (db (fst (ingest pf clock0 (input_m1\<lparr>arg_msg_id := JNum 42\<rparr>) (Suc (Suc 0)) world_m1)))
       = [Some ''m1'', Some ''42'']"
proof (intro allI)
  fix pf
  let ?a = "input_m1\<lparr>arg_msg_id := JNum 42\<rparr>"
  have h1: "truthy (arg_wa_id input_m1)" and h2: "truthy (arg_msg_id input_m1)"
    and h3: "prim_text pf (arg_msg_id input_m1) = Some ''m1''"
    by (simp_all add: input_m1_def)
  have u: "upsertMessage pf clock0 input_m1 empty_world =
      (empty_world\<lparr>calls := [CallUpsert (JStr ''m1'')],
         db := [doc_m1\<lparr>meta_msg_id := None, status := Some ''sent'', profileName := Some ''Unknown''\<rparr>]\<rparr>, None)"
    by (simp add: run_defs input_m1_def empty_world_def doc_m1_def number_eval)
  have h4: "snd (upsertMessage pf clock0 input_m1 empty_world) = None"
    by (simp add: u)
  have h5: "length (filter (\<lambda>d. msg_id d = Some ''m1'') (db empty_world)) \<le> 1"
    by (simp add: empty_world_def)
  have e: "db (fst (ingest pf clock0 input_m1 (Suc 0) empty_world))
       = [doc_m1\<lparr>meta_msg_id := None, status := Some ''sent'', profileName := Some ''Unknown''\<rparr>]"
    by (simp add: u)
  have g1: "truthy (arg_wa_id ?a)" and g2: "truthy (arg_msg_id ?a)"
    by (simp_all add: input_m1_def)
  have g3: "prim_text pf (arg_msg_id ?a) = Some ''42''"
    by (simp add: text_of_number_def is_integer_def show_int_def digit_char_def)
  have v: "db (fst (upsertMessage pf clock0 ?a world_m1)) =
         [doc_m1, doc_m1\<lparr>msg_id := Some ''42'', meta_msg_id := None, status := Some ''sent'',
                          profileName := Some ''Unknown''\<rparr>]"
      "snd (upsertMessage pf clock0 ?a world_m1) = None"
    by (simp_all add: run_defs input_m1_def world_m1_def doc_m1_def number_eval
        text_of_number_def show_int_def digit_char_def)
  have g5: "length (filter (\<lambda>d. msg_id d = Some ''42'') (db world_m1)) \<le> 1"
    by (simp add: world_m1_def doc_m1_def)
  have e2: "map msg_id (db (fst (ingest pf clock0 ?a (Suc 0) world_m1))) = [Some ''m1'', Some ''42'']"
    using v by (cases "upsertMessage pf clock0 ?a world_m1") (simp add: doc_m1_def)
  from upsertMessage_idempotent[OF h1 h2 h3 h4 h5, of "Suc (Suc 0)"]
    upsertMessage_idempotent[OF g1 g2 g3 v(2) g5, of "Suc 0"]
    h1 h2 h3 h4 h5 g3 v(2) g5
  show "truthy (arg_wa_id input_m1) \<and> truthy (arg_msg_id input_m1)
   \<and> prim_text pf (arg_msg_id input_m1) = Some ''m1''
   \<and> snd (upsertMessage pf clock0 input_m1 empty_world) = None
   \<and> length (filter (\<lambda>d. msg_id d = Some ''m1'') (db empty_world)) \<le> 1
   \<and> snd (ingest pf clock0 input_m1 (Suc (Suc (Suc 0))) empty_world) = None
   \<and> length (filter (\<lambda>d. msg_id d = Some ''m1'')
                   (db (fst (ingest pf clock0 input_m1 (Suc (Suc (Suc 0))) empty_world)))) = 1
   \<and> db (fst (ingest pf clock0 input_m1 (Suc (Suc (Suc 0))) empty_world))
       = [doc_m1\<lparr>meta_msg_id := None, status := Some ''sent'', profileName := Some ''Unknown''\<rparr>]
   \<and> prim_text pf (arg_msg_id (input_m1\<lparr>arg_msg_id := JNum 42\<rparr>)) = Some ''42''
   \<and> snd (upsertMessage pf clock0 (input_m1\<lparr>arg_msg_id := JNum 42\<rparr>) world_m1) = None
   \<and> length (filter (\<lambda>d. msg_id d = Some ''42'') (db world_m1)) \<le> 1
   \<and> map msg_id (db (fst (ingest pf clock0 (input_m1\<lparr>arg_msg_id := JNum 42\<rparr>) (Suc (Suc 0)) world_m1)))
       = [Some ''m1'', Some ''42'']"
    by (simp add: e e2 doc_m1_def del: ingest.simps)
qed

text \<open>A message input with an id but no \<open>wa_id\<close> is never stored, however often it is
  ingested.\<close>

theorem upsertMessage_without_conversation_counterexample:
  "\<forall>pf. truthy (arg_msg_id input_no_wa)
   \<and> db (fst (ingest pf clock0 input_no_wa (Suc 0) empty_world)) = []
   \<and> db (fst (ingest pf clock0 input_no_wa (Suc (Suc 0)) empty_world)) = []"
  by (simp add: input_no_wa_def upsertMessage_def empty_world_def)

subsection \<open>C2: payload shapes\<close>

text \<open>
  C2, as the code has it. \<open>processFile\<close> reads one container: the \<^verbatim>\<open>value\<close> of the
  first change of the first entry of a nested envelope, whatever its \<^verbatim>\<open>field\<close> says,
  or else the payload itself. So an envelope whose first entry's first change carries
  the container \<open>v\<close> is processed exactly as the flat payload \<open>v\<close> is (same
  collection, same clock readings, same calls, same outcome), and every further change
  and every further entry is ignored. (\<open>v\<close> is a flat payload: it has no \<^verbatim>\<open>entry\<close>,
  \<^verbatim>\<open>entries\<close> or \<^verbatim>\<open>value\<close> of its own.)
\<close>

theorem processFile_envelope:
  assumes "truthy v"
    and "\<not> truthy (field v ''entry'')" and "\<not> truthy (field v ''entries'')"
    and "\<not> truthy (field v ''value'')"
  shows "processFile pf clock (Inr (envelope_of ((change_of f v # cs) # ess))) w
       = processFile pf clock (Inr v) w"
proof -
  let ?p = "envelope_of ((change_of f v # cs) # ess)"
  have nn: "\<not> nullish v" using assms(1) by (cases v) auto
  have c1: "container_of ?p (field ?p ''entry'') = v"
    using assms(1)
    by (simp add: container_of_def envelope_of_def change_of_def asArray_def js_or_def)
  have c2: "container_of v (field v ''entry'') = v"
    using assms
    by (simp add: container_of_def asArray_def js_or_def)
  have m: "messages_of ?p v = messages_of v v"
    by (simp add: messages_of_def envelope_of_def js_or_def)
  have s: "statuses_of ?p v = statuses_of v v"
    by (simp add: statuses_of_def envelope_of_def js_or_def)
  have t: "field ?p ''timestamp'' = JUndef"
    by (simp add: envelope_of_def)
  have g1: "get ?p ''entry'' = Inr (field ?p ''entry'')"
    by (simp add: get_def envelope_of_def)
  have g2: "get v ''entry'' = Inr (field v ''entry'')"
    using nn by (simp add: get_def)
  show ?thesis
    unfolding processFile_def
    by (simp add: g1 g2 c1 c2 m s upsert_all_envelope[OF t] Let_def del: upsert_all.simps apply_all.simps)
qed

theorem processFile_envelope_witness:
  "\<forall>pf. truthy (flat_payload [msg_m1] [status_event ''m1'' ''read''])
   \<and> \<not> truthy (field (flat_payload [msg_m1] [status_event ''m1'' ''read'']) ''entry'')
   \<and> \<not> truthy (field (flat_payload [msg_m1] [status_event ''m1'' ''read'']) ''entries'')
   \<and> \<not> truthy (field (flat_payload [msg_m1] [status_event ''m1'' ''read'']) ''value'')
   \<and> db (fst (processFile pf clock0 (Inr (flat_payload [msg_m1] [status_event ''m1'' ''read''])) empty_world))
       = [doc_m1\<lparr>meta_msg_id := None, profileName := Some ''Unknown''\<rparr>]
   \<and> db (fst (processFile pf clock0
         (Inr (envelope_of [[change_of (JStr ''messages'') (flat_payload [msg_m1] [status_event ''m1'' ''read''])]]))
         empty_world))
       = [doc_m1\<lparr>meta_msg_id := None, profileName := Some ''Unknown''\<rparr>]"
proof (intro allI)
  fix pf
  let ?v = "flat_payload [msg_m1] [status_event ''m1'' ''read'']"
  have h1: "truthy ?v" and h2: "\<not> truthy (field ?v ''entry'')"
    and h3: "\<not> truthy (field ?v ''entries'')" and h4: "\<not> truthy (field ?v ''value'')"
    by (simp_all add: flat_payload_def)
  have e: "db (fst (processFile pf clock0 (Inr ?v) empty_world))
       = [doc_m1\<lparr>meta_msg_id := None, profileName := Some ''Unknown''\<rparr>]"
    by (simp add: file_defs run_defs flat_payload_def msg_m1_def status_event_def empty_world_def doc_m1_def number_eval)
  from processFile_envelope[OF h1 h2 h3 h4, of pf clock0 "JStr ''messages''" "[]" "[]" empty_world] h1 h2 h3 h4 e
  show "truthy ?v \<and> \<not> truthy (field ?v ''entry'') \<and> \<not> truthy (field ?v ''entries'')
   \<and> \<not> truthy (field ?v ''value'')
   \<and> db (fst (processFile pf clock0 (Inr ?v) empty_world))
       = [doc_m1\<lparr>meta_msg_id := None, profileName := Some ''Unknown''\<rparr>]
   \<and> db (fst (processFile pf clock0 (Inr (envelope_of [[change_of (JStr ''messages'') ?v]])) empty_world))
       = [doc_m1\<lparr>meta_msg_id := None, profileName := Some ''Unknown''\<rparr>]"
    by simp
qed

text \<open>Two messages in two entries, or in two changes of one entry: only the first is
  stored, where the flat payload with both stores both.\<close>

theorem processFile_first_change_only_counterexample:
  "\<forall>pf. map msg_id (db (fst (processFile pf clock0
       (Inr (envelope_of [[change_of (JStr ''messages'') (flat_payload [msg_m1] [])],
                          [change_of (JStr ''messages'') (flat_payload [msg_m2] [])]]))
       empty_world))) = [Some ''m1'']
   \<and> map msg_id (db (fst (processFile pf clock0
       (Inr (envelope_of [[change_of (JStr ''messages'') (flat_payload [msg_m1] []),
                           change_of (JStr ''messages'') (flat_payload [msg_m2] [])]]))
       empty_world))) = [Some ''m1'']
   \<and> map msg_id (db (fst (processFile pf clock0 (Inr (flat_payload [msg_m1, msg_m2] [])) empty_world)))
       = [Some ''m1'', Some ''m2'']"
  by (simp add: file_defs run_defs flat_payload_def msg_m1_def msg_m2_def empty_world_def change_of_def envelope_of_def number_eval)

subsection \<open>C3: timestamps\<close>




subsection \<open>C4: status correlation fallback\<close>

text \<open>
  C4, as the code has it. \<open>applyStatus\<close> looks for a document by \<open>msg_id\<close> first and
  updates it when there is one; when there is none it looks for a document by
  \<open>meta_msg_id\<close>, but only if the input carries a non-empty \<open>metaMsgId\<close>: with none
  the collection stays as it is. \<open>processFile\<close> passes the id of a status record as
  \<open>metaMsgId\<close> too, so a status record \<^verbatim>\<open>{id: x, status: "delivered"}\<close> processed by
  its loop sets the status of the first document with \<open>meta_msg_id = x\<close> to
  \<^verbatim>\<open>delivered\<close> when no document has \<open>msg_id = x\<close>. (\<open>P\<close> and \<open>Q\<close> are the tests
  that the two filters make; for a string \<open>x\<close> they are equality with \<open>x\<close>.)
\<close>

theorem applyStatus_correlation_fallback:
  assumes "truthy (arg_id a) \<or> truthy (arg_metaMsgId a)"
    and "filter_string pf ''msg_id'' (arg_id a) = Inr P"
    and "refusal (cast_update pf ''status'' (arg_new_status a)) = None"
    and "x \<noteq> []"
  shows
    "(find_by_msg_id P (db w) = Some i \<longrightarrow>
        db (fst (fst (applyStatus pf a w)))
          = set_status (cast_update pf ''status'' (arg_new_status a)) i (db w))
     \<and> (find_by_msg_id P (db w) = None \<and> truthy (arg_metaMsgId a)
          \<and> filter_string pf ''meta_msg_id'' (arg_metaMsgId a) = Inr Q
          \<and> find_by_meta_msg_id Q (db w) = Some j \<longrightarrow>
        db (fst (fst (applyStatus pf a w)))
          = set_status (cast_update pf ''status'' (arg_new_status a)) j (db w))
     \<and> (find_by_msg_id P (db w) = None \<and> \<not> truthy (arg_metaMsgId a) \<longrightarrow>
        db (fst (fst (applyStatus pf a w))) = db w)
     \<and> status_input_of (status_event x ''delivered'') = Inr (status_by_both x ''delivered'')
     \<and> (find_by_msg_id (\<lambda>y. y = Some x) (db w) = None
          \<and> find_by_meta_msg_id (\<lambda>y. y = Some x) (db w) = Some j \<longrightarrow>
        db (fst (apply_all pf [status_event x ''delivered''] w))
          = (db w)[j := (db w ! j)\<lparr>status := Some ''delivered''\<rparr>])"
proof -
  have p1: "find_by_msg_id P (db w) = Some i \<Longrightarrow>
        db (fst (fst (applyStatus pf a w)))
          = set_status (cast_update pf ''status'' (arg_new_status a)) i (db w)"
    using applyStatus_primary[OF assms(1,2,3), of w i] by simp
  have p2: "find_by_msg_id P (db w) = None \<Longrightarrow> truthy (arg_metaMsgId a)
          \<Longrightarrow> filter_string pf ''meta_msg_id'' (arg_metaMsgId a) = Inr Q
          \<Longrightarrow> find_by_meta_msg_id Q (db w) = Some j \<Longrightarrow>
        db (fst (fst (applyStatus pf a w)))
          = set_status (cast_update pf ''status'' (arg_new_status a)) j (db w)"
    using applyStatus_fallback[OF _ assms(2,3), of w Q j] by simp
  have p3: "find_by_msg_id P (db w) = None \<Longrightarrow> \<not> truthy (arg_metaMsgId a) \<Longrightarrow>
        db (fst (fst (applyStatus pf a w))) = db w"
    using applyStatus_no_fallback[OF _ assms(2), of w] by simp
  have p4: "status_input_of (status_event x ''delivered'') = Inr (status_by_both x ''delivered'')"
    using assms(4)
    by (simp add: status_input_of_def status_event_def status_by_both_def get_def js_or_def)
  have p5: "find_by_msg_id (\<lambda>y. y = Some x) (db w) = None \<Longrightarrow>
        find_by_meta_msg_id (\<lambda>y. y = Some x) (db w) = Some j \<Longrightarrow>
        db (fst (apply_all pf [status_event x ''delivered''] w))
          = (db w)[j := (db w ! j)\<lparr>status := Some ''delivered''\<rparr>]"
  proof -
    assume n: "find_by_msg_id (\<lambda>y. y = Some x) (db w) = None"
      and f: "find_by_meta_msg_id (\<lambda>y. y = Some x) (db w) = Some j"
    have "fst (applyStatus pf (status_by_both x ''delivered'') w) =
          (w\<lparr>calls := calls w @ [CallStatus (arg_id (status_by_both x ''delivered''))],
             db := set_status (cast_update pf ''status'' (arg_new_status (status_by_both x ''delivered'')))
                     j (db w)\<rparr>, None)"
      using assms(4) n f
      by (intro applyStatus_fallback[where P = "\<lambda>y. y = Some x" and Q = "\<lambda>y. y = Some x"])
         (simp_all add: status_by_both_def)
    then show ?thesis
      by (simp add: p4 set_status_def status_by_both_def)
  qed
  from p1 p2 p3 p4 p5 show ?thesis by blast
qed

theorem applyStatus_correlation_fallback_witness:
  "\<forall>pf. (truthy (arg_id (status_by_both ''X'' ''read'')) \<or> truthy (arg_metaMsgId (status_by_both ''X'' ''read'')))
   \<and> filter_string pf ''msg_id'' (arg_id (status_by_both ''X'' ''read'')) = Inr (\<lambda>y. y = Some ''X'')
   \<and> refusal (cast_update pf ''status'' (arg_new_status (status_by_both ''X'' ''read''))) = None
   \<and> ''X'' \<noteq> []
   \<and> find_by_msg_id (\<lambda>y. y = Some ''X'') (db world_m1) = None
   \<and> truthy (arg_metaMsgId (status_by_both ''X'' ''read''))
   \<and> filter_string pf ''meta_msg_id'' (arg_metaMsgId (status_by_both ''X'' ''read'')) = Inr (\<lambda>y. y = Some ''X'')
   \<and> find_by_meta_msg_id (\<lambda>y. y = Some ''X'') (db world_m1) = Some 0
   \<and> db (fst (fst (applyStatus pf (status_by_both ''X'' ''read'') world_m1)))
       = set_status (Assign (Some ''read'')) 0 (db world_m1)
   \<and> db (fst (apply_all pf [status_event ''X'' ''delivered''] world_m1))
       = [doc_m1\<lparr>status := Some ''delivered''\<rparr>]"
proof (intro allI)
  fix pf
  have h1: "truthy (arg_id (status_by_both ''X'' ''read'')) \<or> truthy (arg_metaMsgId (status_by_both ''X'' ''read''))"
    and h2: "filter_string pf ''msg_id'' (arg_id (status_by_both ''X'' ''read'')) = Inr (\<lambda>y. y = Some ''X'')"
    and h3: "refusal (cast_update pf ''status'' (arg_new_status (status_by_both ''X'' ''read''))) = None"
    and h4: "''X'' \<noteq> []"
    by (simp_all add: status_by_both_def)
  have m: "truthy (arg_metaMsgId (status_by_both ''X'' ''read''))"
    "filter_string pf ''meta_msg_id'' (arg_metaMsgId (status_by_both ''X'' ''read'')) = Inr (\<lambda>y. y = Some ''X'')"
    "cast_update pf ''status'' (arg_new_status (status_by_both ''X'' ''read'')) = Assign (Some ''read'')"
    by (simp_all add: status_by_both_def)
  have f: "find_by_msg_id (\<lambda>y. y = Some ''X'') (db world_m1) = None"
    "find_by_meta_msg_id (\<lambda>y. y = Some ''X'') (db world_m1) = Some 0"
    by (simp_all add: find_by_msg_id_def find_by_meta_msg_id_def world_m1_def doc_m1_def)
  have d: "db world_m1 = [doc_m1]"
    by (simp add: world_m1_def)
  from applyStatus_correlation_fallback[OF h1 h2 h3 h4, of world_m1 0 "\<lambda>y. y = Some ''X''" 0] h2 h3 m f
  show "(truthy (arg_id (status_by_both ''X'' ''read'')) \<or> truthy (arg_metaMsgId (status_by_both ''X'' ''read'')))
   \<and> filter_string pf ''msg_id'' (arg_id (status_by_both ''X'' ''read'')) = Inr (\<lambda>y. y = Some ''X'')
   \<and> refusal (cast_update pf ''status'' (arg_new_status (status_by_both ''X'' ''read''))) = None
   \<and> ''X'' \<noteq> []
   \<and> find_by_msg_id (\<lambda>y. y = Some ''X'') (db world_m1) = None
   \<and> truthy (arg_metaMsgId (status_by_both ''X'' ''read''))
   \<and> filter_string pf ''meta_msg_id'' (arg_metaMsgId (status_by_both ''X'' ''read'')) = Inr (\<lambda>y. y = Some ''X'')
   \<and> find_by_meta_msg_id (\<lambda>y. y = Some ''X'') (db world_m1) = Some 0
   \<and> db (fst (fst (applyStatus pf (status_by_both ''X'' ''read'') world_m1)))
       = set_status (Assign (Some ''read'')) 0 (db world_m1)
   \<and> db (fst (apply_all pf [status_event ''X'' ''delivered''] world_m1))
       = [doc_m1\<lparr>status := Some ''delivered''\<rparr>]"
    by (simp add: d del: apply_all.simps)
qed

text \<open>Called with the id alone, \<open>applyStatus\<close> does not reach a document that only its
  \<open>meta_msg_id\<close> would find.\<close>

theorem applyStatus_primary_only_counterexample:
  "\<forall>pf. msg_id doc_m1 \<noteq> Some ''X'' \<and> meta_msg_id doc_m1 = Some ''X'' \<and> status doc_m1 = Some ''read''
   \<and> db (fst (fst (applyStatus pf (status_by_id ''X'' ''delivered'') world_m1))) = [doc_m1]"
  by (simp add: applyStatus_def status_by_id_def world_m1_def doc_m1_def find_by_msg_id_def)

subsection \<open>C5: a status that matches nothing\<close>

text \<open>
  C5, as the code has it. When the filter on the input's id matches no document, and
  the input has no \<open>metaMsgId\<close> or the filter on it matches no document either,
  \<open>applyStatus\<close> leaves the collection unchanged; so it does for a string id \<open>x\<close> and
  a string \<open>metaMsgId\<close> \<open>c\<close> when no document has \<open>msg_id = x\<close> or
  \<open>meta_msg_id = c\<close>. It returns \<^verbatim>\<open>undefined\<close>, as it does on every path, and
  reports no \<open>matched\<close> flag.
\<close>

theorem applyStatus_unresolvable:
  "(filter_string pf ''msg_id'' (arg_id a) = Inr P \<and> find_by_msg_id P (db w) = None
      \<and> (\<not> truthy (arg_metaMsgId a)
          \<or> filter_string pf ''meta_msg_id'' (arg_metaMsgId a) = Inr Q
            \<and> find_by_meta_msg_id Q (db w) = None)
    \<longrightarrow> db (fst (fst (applyStatus pf a w))) = db w)
   \<and> (arg_id a = JStr x \<and> arg_metaMsgId a = JStr c
      \<and> (\<forall>d\<in>set (db w). msg_id d \<noteq> Some x \<and> meta_msg_id d \<noteq> Some c)
    \<longrightarrow> db (fst (fst (applyStatus pf a w))) = db w)
   \<and> snd (applyStatus pf a w) = JUndef"
proof -
  have p1: "db (fst (fst (applyStatus pf a w))) = db w"
    if "filter_string pf ''msg_id'' (arg_id a) = Inr P" "find_by_msg_id P (db w) = None"
      "\<not> truthy (arg_metaMsgId a)
          \<or> filter_string pf ''meta_msg_id'' (arg_metaMsgId a) = Inr Q
            \<and> find_by_meta_msg_id Q (db w) = None"
    using that by (intro applyStatus_unmatched) auto
  have p2: "db (fst (fst (applyStatus pf a w))) = db w"
    if "arg_id a = JStr x" "arg_metaMsgId a = JStr c"
      "\<forall>d\<in>set (db w). msg_id d \<noteq> Some x \<and> meta_msg_id d \<noteq> Some c"
    using that
    by (intro applyStatus_unmatched)
       (auto simp add: find_by_msg_id_def find_by_meta_msg_id_def first_index_None_iff)
  from p1 p2 applyStatus_returns[of pf a w] show ?thesis by blast
qed

theorem applyStatus_unresolvable_witness:
  "\<forall>pf. filter_string pf ''msg_id'' (arg_id (status_by_both ''zz'' ''read'')) = Inr (\<lambda>y. y = Some ''zz'')
   \<and> find_by_msg_id (\<lambda>y. y = Some ''zz'') (db world_m1) = None
   \<and> filter_string pf ''meta_msg_id'' (arg_metaMsgId (status_by_both ''zz'' ''read'')) = Inr (\<lambda>y. y = Some ''zz'')
   \<and> find_by_meta_msg_id (\<lambda>y. y = Some ''zz'') (db world_m1) = None
   \<and> arg_id (status_by_both ''zz'' ''read'') = JStr ''zz''
   \<and> arg_metaMsgId (status_by_both ''zz'' ''read'') = JStr ''zz''
   \<and> db world_m1 = [doc_m1] \<and> msg_id doc_m1 \<noteq> Some ''zz'' \<and> meta_msg_id doc_m1 \<noteq> Some ''zz''
   \<and> db (fst (fst (applyStatus pf (status_by_both ''zz'' ''read'') world_m1))) = [doc_m1]
   \<and> snd (applyStatus pf (status_by_both ''zz'' ''read'') world_m1) = JUndef"
proof (intro allI)
  fix pf
  have c: "filter_string pf ''msg_id'' (arg_id (status_by_both ''zz'' ''read'')) = Inr (\<lambda>y. y = Some ''zz'')"
    "filter_string pf ''meta_msg_id'' (arg_metaMsgId (status_by_both ''zz'' ''read'')) = Inr (\<lambda>y. y = Some ''zz'')"
    "arg_id (status_by_both ''zz'' ''read'') = JStr ''zz''"
    "arg_metaMsgId (status_by_both ''zz'' ''read'') = JStr ''zz''"
    by (simp_all add: status_by_both_def)
  have f: "find_by_msg_id (\<lambda>y. y = Some ''zz'') (db world_m1) = None"
    "find_by_meta_msg_id (\<lambda>y. y = Some ''zz'') (db world_m1) = None"
    "db world_m1 = [doc_m1]" "msg_id doc_m1 \<noteq> Some ''zz''" "meta_msg_id doc_m1 \<noteq> Some ''zz''"
    by (simp_all add: find_by_msg_id_def find_by_meta_msg_id_def world_m1_def doc_m1_def)
  from applyStatus_unresolvable[of pf "status_by_both ''zz'' ''read''" "\<lambda>y. y = Some ''zz''" world_m1
      "\<lambda>y. y = Some ''zz''" "''zz''" "''zz''"] c f
  show "filter_string pf ''msg_id'' (arg_id (status_by_both ''zz'' ''read'')) = Inr (\<lambda>y. y = Some ''zz'')
   \<and> find_by_msg_id (\<lambda>y. y = Some ''zz'') (db world_m1) = None
   \<and> filter_string pf ''meta_msg_id'' (arg_metaMsgId (status_by_both ''zz'' ''read'')) = Inr (\<lambda>y. y = Some ''zz'')
   \<and> find_by_meta_msg_id (\<lambda>y. y = Some ''zz'') (db world_m1) = None
   \<and> arg_id (status_by_both ''zz'' ''read'') = JStr ''zz''
   \<and> arg_metaMsgId (status_by_both ''zz'' ''read'') = JStr ''zz''
   \<and> db world_m1 = [doc_m1] \<and> msg_id doc_m1 \<noteq> Some ''zz'' \<and> meta_msg_id doc_m1 \<noteq> Some ''zz''
   \<and> db (fst (fst (applyStatus pf (status_by_both ''zz'' ''read'') world_m1))) = [doc_m1]
   \<and> snd (applyStatus pf (status_by_both ''zz'' ''read'') world_m1) = JUndef"
    by simp
qed

text \<open>What \<open>applyStatus\<close> returns for a status that matches nothing has no property
  \<open>matched\<close>, and is what it returns for a status that matches.\<close>

theorem applyStatus_reports_nothing_counterexample:
  "\<forall>pf. snd (applyStatus pf (status_by_both ''zz'' ''read'') world_m1) = JUndef
   \<and> get (snd (applyStatus pf (status_by_both ''zz'' ''read'') world_m1)) ''matched'' = Inl TypeError
   \<and> snd (applyStatus pf (status_by_both ''zz'' ''read'') world_m1)
       = snd (applyStatus pf (status_by_both ''m1'' ''read'') world_m1)"
  by (simp add: applyStatus_returns get_def)

subsection \<open>C6: invalid messages\<close>

text \<open>
  C6. \<open>upsertMessage\<close> writes nothing for an argument without \<open>wa_id\<close> or \<open>msg_id\<close>,
  and the loop of \<open>processFile\<close> goes on after a message that is an object without
  an id (\<open>upsert_all_skips_invalid\<close>). Not so for a message that is \<^verbatim>\<open>null\<close>: the
  loop reads \<^verbatim>\<open>m.id\<close> without the \<^verbatim>\<open>?.\<close> that guards every other read of \<open>m\<close>,
  the read throws a TypeError, and \<open>processFile\<close> ends there. The messages before
  the \<^verbatim>\<open>null\<close> are stored; those after it, valid or not, are never looked at, and no
  status is applied. With \<open>msg_m1\<close>, \<^verbatim>\<open>null\<close> and \<open>msg_m2\<close> only the first is stored,
  where an object without an id in the place of \<^verbatim>\<open>null\<close> lets both be stored.
\<close>

theorem processFile_null_message_aborts:
  "upsert_all pf clock payload v fw fp (ms1 @ JNull # ms2) w
     = (case upsert_all pf clock payload v fw fp ms1 w of
          (w', Some e) \<Rightarrow> (w', Some e)
        | (w', None) \<Rightarrow> (w', Some TypeError))
   \<and> processFile pf clock0 (Inr (flat_payload [msg_m1, JNull, msg_m2] [status_event ''m1'' ''read''])) empty_world
       = (empty_world\<lparr>calls := [CallUpsert (JStr ''m1'')],
            db := [doc_m1\<lparr>meta_msg_id := None, status := Some ''sent'',
                          profileName := Some ''Unknown''\<rparr>]\<rparr>,
          Some TypeError)
   \<and> processFile pf clock0 (Inr (flat_payload [msg_m1, msg_no_id, msg_m2] [status_event ''m1'' ''read''])) empty_world
       = (empty_world\<lparr>calls := [CallUpsert (JStr ''m1''), CallUpsert JUndef, CallUpsert (JStr ''m2''),
                                CallStatus (JStr ''m1'')],
            db := [doc_m1\<lparr>meta_msg_id := None, profileName := Some ''Unknown''\<rparr>, doc_m2]\<rparr>,
          None)"
proof -
  have n: "message_input payload v fw fp JNull = Inl TypeError"
    by (simp add: message_input_def get_def)
  have a: "upsert_all pf clock payload v fw fp (ms1 @ JNull # ms2) w
     = (case upsert_all pf clock payload v fw fp ms1 w of
          (w', Some e) \<Rightarrow> (w', Some e)
        | (w', None) \<Rightarrow> (w', Some TypeError))"
    unfolding upsert_all_append
    by (simp add: n cong: prod.case_cong option.case_cong)
  have b: "processFile pf clock0 (Inr (flat_payload [msg_m1, JNull, msg_m2] [status_event ''m1'' ''read''])) empty_world
       = (empty_world\<lparr>calls := [CallUpsert (JStr ''m1'')],
            db := [doc_m1\<lparr>meta_msg_id := None, status := Some ''sent'',
                          profileName := Some ''Unknown''\<rparr>]\<rparr>,
          Some TypeError)"
    by (simp add: file_defs run_defs flat_payload_def msg_m1_def msg_m2_def status_event_def
        empty_world_def doc_m1_def number_eval)
  have c: "processFile pf clock0 (Inr (flat_payload [msg_m1, msg_no_id, msg_m2] [status_event ''m1'' ''read''])) empty_world
       = (empty_world\<lparr>calls := [CallUpsert (JStr ''m1''), CallUpsert JUndef, CallUpsert (JStr ''m2''),
                                CallStatus (JStr ''m1'')],
            db := [doc_m1\<lparr>meta_msg_id := None, profileName := Some ''Unknown''\<rparr>, doc_m2]\<rparr>,
          None)"
    by (simp add: file_defs run_defs flat_payload_def msg_m1_def msg_m2_def msg_no_id_def
        status_event_def empty_world_def doc_m1_def doc_m2_def number_eval)
  from a b c show ?thesis by simp
qed

subsection \<open>C7: last write wins\<close>

text \<open>
  C7. For every collection and every status text \<open>s\<close> (\<^verbatim>\<open>sent\<close>, \<^verbatim>\<open>delivered\<close> and
  \<^verbatim>\<open>read\<close> among them), an \<open>applyStatus\<close> input that matches a document, by its id
  or else by its \<open>metaMsgId\<close>, sets the status of that document to \<open>s\<close> whatever its
  status was, and changes nothing else in the collection.
\<close>

theorem applyStatus_last_write_wins:
  assumes "arg_new_status a = JStr s"
    and "truthy (arg_id a) \<or> truthy (arg_metaMsgId a)"
    and "filter_string pf ''msg_id'' (arg_id a) = Inr P"
  shows "(find_by_msg_id P (db w) = Some i \<longrightarrow>
            fst (applyStatus pf a w) =
              (w\<lparr>calls := calls w @ [CallStatus (arg_id a)],
                 db := (db w)[i := (db w ! i)\<lparr>status := Some s\<rparr>]\<rparr>, None))
       \<and> (find_by_msg_id P (db w) = None \<and> truthy (arg_metaMsgId a)
            \<and> filter_string pf ''meta_msg_id'' (arg_metaMsgId a) = Inr Q
            \<and> find_by_meta_msg_id Q (db w) = Some j \<longrightarrow>
            fst (applyStatus pf a w) =
              (w\<lparr>calls := calls w @ [CallStatus (arg_id a)],
                 db := (db w)[j := (db w ! j)\<lparr>status := Some s\<rparr>]\<rparr>, None))"
proof -
  have s: "cast_update pf ''status'' (arg_new_status a) = Assign (Some s)"
    using assms(1) by simp
  then have r: "refusal (cast_update pf ''status'' (arg_new_status a)) = None"
    by simp
  have u: "set_status (cast_update pf ''status'' (arg_new_status a)) n ds
      = ds[n := (ds ! n)\<lparr>status := Some s\<rparr>]"
    for n ds by (simp add: s set_status_def)
  show ?thesis
    using applyStatus_primary[OF assms(2) assms(3) r, of w i]
      applyStatus_fallback[OF _ assms(3) r, of w Q j]
    by (simp add: u)
qed

theorem applyStatus_last_write_wins_witness:
  "\<forall>pf. arg_new_status (status_by_id ''m1'' ''sent'') = JStr ''sent''
   \<and> truthy (arg_id (status_by_id ''m1'' ''sent''))
   \<and> filter_string pf ''msg_id'' (arg_id (status_by_id ''m1'' ''sent'')) = Inr (\<lambda>y. y = Some ''m1'')
   \<and> find_by_msg_id (\<lambda>y. y = Some ''m1'') (db world_m1) = Some 0
   \<and> status doc_m1 = Some ''read''
   \<and> db (fst (fst (applyStatus pf (status_by_id ''m1'' ''sent'') world_m1)))
        = [doc_m1\<lparr>status := Some ''sent''\<rparr>]
   \<and> arg_new_status (status_by_both ''X'' ''delivered'') = JStr ''delivered''
   \<and> truthy (arg_metaMsgId (status_by_both ''X'' ''delivered''))
   \<and> filter_string pf ''msg_id'' (arg_id (status_by_both ''X'' ''delivered'')) = Inr (\<lambda>y. y = Some ''X'')
   \<and> find_by_msg_id (\<lambda>y. y = Some ''X'') (db world_m1) = None
   \<and> filter_string pf ''meta_msg_id'' (arg_metaMsgId (status_by_both ''X'' ''delivered'')) = Inr (\<lambda>y. y = Some ''X'')
   \<and> find_by_meta_msg_id (\<lambda>y. y = Some ''X'') (db world_m1) = Some 0
   \<and> db (fst (fst (applyStatus pf (status_by_both ''X'' ''delivered'') world_m1)))
        = [doc_m1\<lparr>status := Some ''delivered''\<rparr>]"
proof (intro allI)
  fix pf
  have a1: "arg_new_status (status_by_id ''m1'' ''sent'') = JStr ''sent''"
    and a2: "truthy (arg_id (status_by_id ''m1'' ''sent'')) \<or> truthy (arg_metaMsgId (status_by_id ''m1'' ''sent''))"
    and a3: "filter_string pf ''msg_id'' (arg_id (status_by_id ''m1'' ''sent'')) = Inr (\<lambda>y. y = Some ''m1'')"
    by (simp_all add: status_by_id_def)
  have b1: "arg_new_status (status_by_both ''X'' ''delivered'') = JStr ''delivered''"
    and b2: "truthy (arg_id (status_by_both ''X'' ''delivered'')) \<or> truthy (arg_metaMsgId (status_by_both ''X'' ''delivered''))"
    and b3: "filter_string pf ''msg_id'' (arg_id (status_by_both ''X'' ''delivered'')) = Inr (\<lambda>y. y = Some ''X'')"
    by (simp_all add: status_by_both_def)
  have f: "find_by_msg_id (\<lambda>y. y = Some ''m1'') (db world_m1) = Some 0"
    "find_by_msg_id (\<lambda>y. y = Some ''X'') (db world_m1) = None"
    "find_by_meta_msg_id (\<lambda>y. y = Some ''X'') (db world_m1) = Some 0"
    by (simp_all add: find_by_msg_id_def find_by_meta_msg_id_def world_m1_def doc_m1_def)
  have m: "truthy (arg_metaMsgId (status_by_both ''X'' ''delivered''))"
    "filter_string pf ''meta_msg_id'' (arg_metaMsgId (status_by_both ''X'' ''delivered'')) = Inr (\<lambda>y. y = Some ''X'')"
    "truthy (arg_id (status_by_id ''m1'' ''sent''))"
    by (simp_all add: status_by_both_def status_by_id_def)
  have d: "db world_m1 = [doc_m1]" "status doc_m1 = Some ''read''"
    by (simp_all add: world_m1_def doc_m1_def)
  from applyStatus_last_write_wins[OF a1 a2 a3, of world_m1 0 "\<lambda>y. y = None" 0]
    applyStatus_last_write_wins[OF b1 b2 b3, of world_m1 0 "\<lambda>y. y = Some ''X''" 0]
    a1 a3 b1 b3 f m d
  show "arg_new_status (status_by_id ''m1'' ''sent'') = JStr ''sent''
   \<and> truthy (arg_id (status_by_id ''m1'' ''sent''))
   \<and> filter_string pf ''msg_id'' (arg_id (status_by_id ''m1'' ''sent'')) = Inr (\<lambda>y. y = Some ''m1'')
   \<and> find_by_msg_id (\<lambda>y. y = Some ''m1'') (db world_m1) = Some 0
   \<and> status doc_m1 = Some ''read''
   \<and> db (fst (fst (applyStatus pf (status_by_id ''m1'' ''sent'') world_m1)))
        = [doc_m1\<lparr>status := Some ''sent''\<rparr>]
   \<and> arg_new_status (status_by_both ''X'' ''delivered'') = JStr ''delivered''
   \<and> truthy (arg_metaMsgId (status_by_both ''X'' ''delivered''))
   \<and> filter_string pf ''msg_id'' (arg_id (status_by_both ''X'' ''delivered'')) = Inr (\<lambda>y. y = Some ''X'')
   \<and> find_by_msg_id (\<lambda>y. y = Some ''X'') (db world_m1) = None
   \<and> filter_string pf ''meta_msg_id'' (arg_metaMsgId (status_by_both ''X'' ''delivered'')) = Inr (\<lambda>y. y = Some ''X'')
   \<and> find_by_meta_msg_id (\<lambda>y. y = Some ''X'') (db world_m1) = Some 0
   \<and> db (fst (fst (applyStatus pf (status_by_both ''X'' ''delivered'') world_m1)))
        = [doc_m1\<lparr>status := Some ''delivered''\<rparr>]"
    by simp
qed

subsection \<open>C8: messages before statuses\<close>

text \<open>
  C8. The calls that \<open>processFile\<close> makes for one source are, in this order: calls of
  \<open>upsertMessage\<close> for the first \<open>k\<close> messages of the source, then calls of
  \<open>applyStatus\<close> for its first \<open>j\<close> status records; and if any status is applied
  (\<open>j > 0\<close>), \<open>upsertMessage\<close> has been called for all the messages (\<open>k\<close> is their
  number).
\<close>

theorem processFile_messages_before_statuses:
  "\<exists>k j. calls (fst (processFile pf clock (Inr p) w))
            = calls w
              @ map (\<lambda>m. CallUpsert (msg_ref m))
                  (take k (messages_of p (container_of p (field p ''entry''))))
              @ map (\<lambda>s. CallStatus (status_ref s))
                  (take j (statuses_of p (container_of p (field p ''entry''))))
         \<and> (0 < j \<longrightarrow> k = length (messages_of p (container_of p (field p ''entry''))))"
proof (cases "nullish p")
  case True
  then have "processFile pf clock (Inr p) w = (w, Some TypeError)"
    by (simp add: processFile_def get_def)
  then show ?thesis
    by (intro exI[of _ 0]) simp
next
  case False
  let ?v = "container_of p (field p ''entry'')"
  let ?ms = "messages_of p ?v"
  let ?ss = "statuses_of p ?v"
  let ?fw = "fst (extractContacts ?v)"
  let ?fp = "snd (extractContacts ?v)"
  obtain w1 r where u: "upsert_all pf clock p ?v ?fw ?fp ?ms w = (w1, r)"
    by (cases "upsert_all pf clock p ?v ?fw ?fp ?ms w")
  from upsert_all_calls[of ?ms pf clock p ?v ?fw ?fp w] u obtain k where k:
    "calls w1 = calls w @ map (\<lambda>m. CallUpsert (msg_ref m)) (take k ?ms)"
    "r = None \<longrightarrow> k = length ?ms"
    by auto
  show ?thesis
  proof (cases r)
    case (Some e)
    with False u have "processFile pf clock (Inr p) w = (w1, Some e)"
      by (simp add: processFile_def get_def Let_def)
    with k show ?thesis
      by (intro exI[of _ k] exI[of _ 0]) simp
  next
    case None
    with False u have step: "processFile pf clock (Inr p) w = apply_all pf ?ss w1"
      by (simp add: processFile_def get_def Let_def)
    from apply_all_calls[of ?ss pf w1] obtain j where j:
      "calls (fst (apply_all pf ?ss w1)) = calls w1 @ map (\<lambda>s. CallStatus (status_ref s)) (take j ?ss)"
      by auto
    with k None show ?thesis
      unfolding step by (intro exI[of _ k] exI[of _ j]) simp
  qed
qed

theorem processFile_messages_before_statuses_witness:
  "\<forall>pf. calls (fst (processFile pf clock0
       (Inr (JObj [(''statuses'', JArr [status_event ''m1'' ''read'']), (''messages'', JArr [msg_m1, msg_m2])]))
       empty_world))
     = [CallUpsert (JStr ''m1''), CallUpsert (JStr ''m2''), CallStatus (JStr ''m1'')]
   \<and> db (fst (processFile pf clock0
       (Inr (JObj [(''statuses'', JArr [status_event ''m1'' ''read'']), (''messages'', JArr [msg_m1, msg_m2])]))
       empty_world))
     = [doc_m1\<lparr>meta_msg_id := None, profileName := Some ''Unknown''\<rparr>, doc_m2]"
proof (intro allI)
  fix pf
  from processFile_messages_before_statuses[of pf clock0
      "JObj [(''statuses'', JArr [status_event ''m1'' ''read'']), (''messages'', JArr [msg_m1, msg_m2])]"
      empty_world]
  show "calls (fst (processFile pf clock0
       (Inr (JObj [(''statuses'', JArr [status_event ''m1'' ''read'']), (''messages'', JArr [msg_m1, msg_m2])]))
       empty_world))
     = [CallUpsert (JStr ''m1''), CallUpsert (JStr ''m2''), CallStatus (JStr ''m1'')]
   \<and> db (fst (processFile pf clock0
       (Inr (JObj [(''statuses'', JArr [status_event ''m1'' ''read'']), (''messages'', JArr [msg_m1, msg_m2])]))
       empty_world))
     = [doc_m1\<lparr>meta_msg_id := None, profileName := Some ''Unknown''\<rparr>, doc_m2]"
    by (simp add: file_defs run_defs status_event_def msg_m1_def msg_m2_def empty_world_def
        doc_m1_def doc_m2_def number_eval)
qed

subsection \<open>C9: the batch\<close>

text \<open>
  C9, as the code has it. \<open>main\<close> is a driver that isolates its sources: it leaves the
  world that processing the \<^verbatim>\<open>.json\<close> sources one after the other leaves, each on
  what the sources before it left, whether or not they failed; and between
  \<open>Connected\<close> and \<open>Disconnected\<close> it writes for each source its \<open>Processing\<close> line
  and then \<open>Done\<close>, or \<open>Failed\<close> with the error that processing this very source
  threw. So for a source \<open>f\<close> anywhere in the batch, whatever it throws (while it is
  read, parsed or processed), the sources after it are processed on the world it left
  and its line carries its own outcome; a source that cannot be read or parsed leaves
  the collection exactly as the batch without it would; and every message with a
  non-empty \<open>wa_id\<close> and \<open>msg_id\<close> of a source whose own processing throws nothing is
  in the collection at the end, whatever happened to the other sources. \<open>main\<close>
  returns nothing: it produces no report and no counts.
\<close>

theorem main_isolates_sources:
  "fst (main pf clock dir w) =
     (isolated_run pf clock (json_files dir) w)
       \<lparr>console := console w @ Connected #
          (if json_files dir = [] then [NoFiles] else isolated_lines pf clock (json_files dir) w)
          @ [Disconnected]\<rparr>
   \<and> snd (main pf clock dir w) = JUndef
   \<and> (endsWith (toLowerCase f) ''.json'' \<longrightarrow>
        db (fst (main pf clock (pre @ (f, c) # post) w))
          = db (isolated_run pf clock (json_files post)
                 (fst (processFile pf clock c (isolated_run pf clock (json_files pre) w))))
        \<and> (case snd (processFile pf clock c (isolated_run pf clock (json_files pre) w)) of
              None \<Rightarrow> Done f | Some e' \<Rightarrow> Failed f e')
            \<in> set (console (fst (main pf clock (pre @ (f, c) # post) w))))
   \<and> (endsWith (toLowerCase f) ''.json'' \<longrightarrow>
        db (fst (main pf clock (pre @ (f, Inl e) # post) w)) = db (fst (main pf clock (pre @ post) w))
        \<and> Failed f e \<in> set (console (fst (main pf clock (pre @ (f, Inl e) # post) w))))
   \<and> (endsWith (toLowerCase f) ''.json''
        \<and> snd (processFile pf clock (Inr p) (isolated_run pf clock (json_files pre) w)) = None
        \<and> Inr a \<in> set (message_inputs p) \<and> truthy (arg_wa_id a) \<and> truthy (arg_msg_id a)
        \<and> prim_text pf (arg_msg_id a) = Some k
      \<longrightarrow> Some k \<in> msg_id ` set (db (fst (main pf clock (pre @ (f, Inr p) # post) w))))"
proof -
  have one: "fst (main pf clock dir w) =
     (isolated_run pf clock (json_files dir) w)
       \<lparr>console := console w @ Connected #
          (if json_files dir = [] then [NoFiles] else isolated_lines pf clock (json_files dir) w)
          @ [Disconnected]\<rparr>"
    by (rule main_world)
  have two: "snd (main pf clock dir w) = JUndef"
    by (simp add: main_def Let_def)
  have run: "db (fst (main pf clock (pre @ (f, c) # post) w))
          = db (isolated_run pf clock (json_files post)
                 (fst (processFile pf clock c (isolated_run pf clock (json_files pre) w))))"
    and line: "(case snd (processFile pf clock c (isolated_run pf clock (json_files pre) w)) of
              None \<Rightarrow> Done f | Some e' \<Rightarrow> Failed f e')
            \<in> set (console (fst (main pf clock (pre @ (f, c) # post) w)))"
    if j: "endsWith (toLowerCase f) ''.json''" for c
  proof -
    have split: "json_files (pre @ (f, c) # post) = json_files pre @ (f, c) # json_files post"
      by (rule json_files_split[OF j])
    show "db (fst (main pf clock (pre @ (f, c) # post) w))
          = db (isolated_run pf clock (json_files post)
                 (fst (processFile pf clock c (isolated_run pf clock (json_files pre) w))))"
      unfolding main_world split by (simp add: isolated_run_append)
    show "(case snd (processFile pf clock c (isolated_run pf clock (json_files pre) w)) of
              None \<Rightarrow> Done f | Some e' \<Rightarrow> Failed f e')
            \<in> set (console (fst (main pf clock (pre @ (f, c) # post) w)))"
      unfolding main_world split by (simp add: isolated_lines_append)
  qed
  have bad: "db (fst (main pf clock (pre @ (f, Inl e) # post) w)) = db (fst (main pf clock (pre @ post) w))"
    and failed: "Failed f e \<in> set (console (fst (main pf clock (pre @ (f, Inl e) # post) w)))"
    if j: "endsWith (toLowerCase f) ''.json''"
  proof -
    have "db (fst (main pf clock (pre @ post) w))
        = db (isolated_run pf clock (json_files post) (isolated_run pf clock (json_files pre) w))"
      unfolding main_world by (simp add: json_files_def isolated_run_append)
    then show "db (fst (main pf clock (pre @ (f, Inl e) # post) w)) = db (fst (main pf clock (pre @ post) w))"
      unfolding run[OF j] by (simp add: processFile_def)
    from line[OF j, of "Inl e"]
    show "Failed f e \<in> set (console (fst (main pf clock (pre @ (f, Inl e) # post) w)))"
      by (simp add: processFile_def)
  qed
  have stored: "Some k \<in> msg_id ` set (db (fst (main pf clock (pre @ (f, Inr p) # post) w)))"
    if j: "endsWith (toLowerCase f) ''.json''"
      and ok: "snd (processFile pf clock (Inr p) (isolated_run pf clock (json_files pre) w)) = None"
      and a: "Inr a \<in> set (message_inputs p)" "truthy (arg_wa_id a)" "truthy (arg_msg_id a)"
        "prim_text pf (arg_msg_id a) = Some k"
  proof -
    let ?w = "isolated_run pf clock (json_files pre) w"
    have "Some k \<in> msg_id ` set (db (fst (processFile pf clock (Inr p) ?w)))"
      by (rule processFile_stores[OF ok a])
    with isolated_run_ids_mono[of "fst (processFile pf clock (Inr p) ?w)" pf clock "json_files post"]
    show ?thesis unfolding run[OF j] by blast
  qed
  from one two run line bad failed stored show ?thesis by blast
qed

theorem main_isolates_sources_witness:
  "\<forall>pf. endsWith (toLowerCase ''2.json'') ''.json'' \<and> endsWith (toLowerCase ''3.json'') ''.json''
   \<and> json_files batch3 = batch3 \<and> json_files batch_null = batch_null
   \<and> fst (main pf clock0 batch3 empty_world) =
       \<lparr>db = [doc_m1\<lparr>meta_msg_id := None, status := Some ''sent'', profileName := Some ''Unknown''\<rparr>,
              doc_m2],
        ticks = 0,
        calls = [CallUpsert (JStr ''m1''), CallUpsert (JStr ''m2'')],
        console = [Connected, Processing ''1.json'', Done ''1.json'',
          Processing ''2.json'', Failed ''2.json'' (SyntaxError ''Unexpected end of JSON input''),
          Processing ''3.json'', Done ''3.json'', Disconnected]\<rparr>
   \<and> fst (main pf clock0 batch_null empty_world) =
       \<lparr>db = [doc_m1\<lparr>meta_msg_id := None, status := Some ''sent'', profileName := Some ''Unknown''\<rparr>,
              doc_m2],
        ticks = 0,
        calls = [CallUpsert (JStr ''m1''), CallUpsert (JStr ''m2'')],
        console = [Connected, Processing ''1.json'', Done ''1.json'',
          Processing ''2.json'', Failed ''2.json'' TypeError,
          Processing ''3.json'', Done ''3.json'', Disconnected]\<rparr>
   \<and> snd (processFile pf clock0 (Inr (flat_payload [JNull] []))
            (isolated_run pf clock0 (json_files [(''1.json'', Inr (flat_payload [msg_m1] []))]) empty_world))
       = Some TypeError
   \<and> snd (processFile pf clock0 (Inr (flat_payload [msg_m2] []))
            (isolated_run pf clock0
               (json_files [(''1.json'', Inr (flat_payload [msg_m1] [])),
                            (''2.json'', Inr (flat_payload [JNull] []))]) empty_world))
       = None
   \<and> Inr (input_m1\<lparr>arg_msg_id := JStr ''m2'', arg_text := JStr ''yo'',
                    arg_timestamp := JNum 1700000000000\<rparr>)
       \<in> set (message_inputs (flat_payload [msg_m2] []))
   \<and> Some ''m2'' \<in> msg_id ` set (db (fst (main pf clock0 batch_null empty_world)))
   \<and> db (fst (main pf clock0 batch3 empty_world))
       = db (fst (main pf clock0 [(''1.json'', Inr (flat_payload [msg_m1] [])),
                                  (''3.json'', Inr (flat_payload [msg_m2] []))] empty_world))
   \<and> snd (main pf clock0 batch_null empty_world) = JUndef"
proof (intro allI)
  fix pf
  let ?a2 = "input_m1\<lparr>arg_msg_id := JStr ''m2'', arg_text := JStr ''yo'',
                    arg_timestamp := JNum 1700000000000\<rparr>"
  let ?s1 = "(''1.json'', Inr (flat_payload [msg_m1] [])) :: string \<times> (error + json)"
  let ?s2 = "(''2.json'', Inr (flat_payload [JNull] [])) :: string \<times> (error + json)"
  let ?s3 = "(''3.json'', Inr (flat_payload [msg_m2] [])) :: string \<times> (error + json)"
  have h: "endsWith (toLowerCase ''2.json'') ''.json''"
    and h': "endsWith (toLowerCase ''3.json'') ''.json''"
    by (simp_all add: endsWith_def toLowerCase_def)
  have j: "json_files batch3 = batch3" "json_files batch_null = batch_null"
    "json_files [?s1] = [?s1]" "json_files [?s1, ?s2] = [?s1, ?s2]"
    by (simp_all add: json_files_def batch3_def batch_null_def endsWith_def toLowerCase_def)
  have p1: "processFile pf clock0 (Inr (flat_payload [msg_m1] [])) empty_world
      = (empty_world\<lparr>calls := [CallUpsert (JStr ''m1'')],
           db := [doc_m1\<lparr>meta_msg_id := None, status := Some ''sent'',
                         profileName := Some ''Unknown''\<rparr>]\<rparr>, None)"
    by (simp add: file_defs run_defs flat_payload_def msg_m1_def empty_world_def doc_m1_def number_eval)
  have p2: "processFile pf clock0 (Inr (flat_payload [JNull] [])) w = (w, Some TypeError)" for w
    by (simp add: file_defs run_defs flat_payload_def)
  have p2': "processFile pf clock0 (Inl e) w = (w, Some e)" for w e
    by (simp add: processFile_def)
  have p3: "processFile pf clock0 (Inr (flat_payload [msg_m2] []))
        (empty_world\<lparr>calls := [CallUpsert (JStr ''m1'')],
           db := [doc_m1\<lparr>meta_msg_id := None, status := Some ''sent'',
                         profileName := Some ''Unknown''\<rparr>]\<rparr>)
      = (empty_world\<lparr>calls := [CallUpsert (JStr ''m1''), CallUpsert (JStr ''m2'')],
           db := [doc_m1\<lparr>meta_msg_id := None, status := Some ''sent'',
                         profileName := Some ''Unknown''\<rparr>, doc_m2]\<rparr>, None)"
    by (simp add: file_defs run_defs flat_payload_def msg_m2_def empty_world_def doc_m1_def doc_m2_def
        number_eval)
  have r3: "fst (main pf clock0 batch3 empty_world) =
       \<lparr>db = [doc_m1\<lparr>meta_msg_id := None, status := Some ''sent'', profileName := Some ''Unknown''\<rparr>,
              doc_m2],
        ticks = 0,
        calls = [CallUpsert (JStr ''m1''), CallUpsert (JStr ''m2'')],
        console = [Connected, Processing ''1.json'', Done ''1.json'',
          Processing ''2.json'', Failed ''2.json'' (SyntaxError ''Unexpected end of JSON input''),
          Processing ''3.json'', Done ''3.json'', Disconnected]\<rparr>"
    unfolding main_def j Let_def
    by (simp add: batch3_def processFile_console p1 p2' p3) (simp add: empty_world_def)
  have rn: "fst (main pf clock0 batch_null empty_world) =
       \<lparr>db = [doc_m1\<lparr>meta_msg_id := None, status := Some ''sent'', profileName := Some ''Unknown''\<rparr>,
              doc_m2],
        ticks = 0,
        calls = [CallUpsert (JStr ''m1''), CallUpsert (JStr ''m2'')],
        console = [Connected, Processing ''1.json'', Done ''1.json'',
          Processing ''2.json'', Failed ''2.json'' TypeError,
          Processing ''3.json'', Done ''3.json'', Disconnected]\<rparr>"
    unfolding main_def j Let_def
    by (simp add: batch_null_def processFile_console p1 p2 p3) (simp add: empty_world_def)
  have q2: "snd (processFile pf clock0 (Inr (flat_payload [JNull] []))
            (isolated_run pf clock0 (json_files [?s1]) empty_world)) = Some TypeError"
    by (simp add: p2)
  have q3: "snd (processFile pf clock0 (Inr (flat_payload [msg_m2] []))
            (isolated_run pf clock0 (json_files [?s1, ?s2]) empty_world)) = None"
    unfolding j by (simp add: p1 p2 p3)
  have i: "Inr ?a2 \<in> set (message_inputs (flat_payload [msg_m2] []))"
    by (simp add: message_inputs_def file_defs message_input_def get_def js_or_def js_nc_def
        flat_payload_def msg_m2_def input_m1_def)
  have t: "truthy (arg_wa_id ?a2)" "truthy (arg_msg_id ?a2)" "prim_text pf (arg_msg_id ?a2) = Some ''m2''"
    by (simp_all add: input_m1_def)
  have two: "db (fst (main pf clock0 [?s1, ?s3] empty_world))
       = [doc_m1\<lparr>meta_msg_id := None, status := Some ''sent'', profileName := Some ''Unknown''\<rparr>, doc_m2]"
    unfolding main_world
    by (simp add: json_files_def endsWith_def toLowerCase_def p1 p3)
  have s: "Some ''m2'' \<in> msg_id ` set (db (fst (main pf clock0 batch_null empty_world)))"
    using main_isolates_sources[of pf clock0 "[]" empty_world "''3.json''" "[?s1, ?s2]"
      "Inr (flat_payload [msg_m2] [])" "[]" "SyntaxError []" "flat_payload [msg_m2] []" ?a2 "''m2''"]
      h' q3 i t
    unfolding batch_null_def by auto
  have e: "db (fst (main pf clock0 batch3 empty_world)) = db (fst (main pf clock0 [?s1, ?s3] empty_world))"
    using main_isolates_sources[of pf clock0 "[]" empty_world "''2.json''" "[?s1]"
      "Inr JNull" "[?s3]" "SyntaxError ''Unexpected end of JSON input''" JNull ?a2 "''m2''"]
      h
    unfolding batch3_def by auto
  have u: "snd (main pf clock0 batch_null empty_world) = JUndef"
    using main_isolates_sources[of pf clock0 batch_null empty_world "''2.json''" "[]"
      "Inr JNull" "[]" "SyntaxError []" JNull ?a2 "''m2''"]
    by simp
  from h h' j(1,2) r3 rn q2 q3 i s e u
  show "endsWith (toLowerCase ''2.json'') ''.json'' \<and> endsWith (toLowerCase ''3.json'') ''.json''
   \<and> json_files batch3 = batch3 \<and> json_files batch_null = batch_null
   \<and> fst (main pf clock0 batch3 empty_world) =
       \<lparr>db = [doc_m1\<lparr>meta_msg_id := None, status := Some ''sent'', profileName := Some ''Unknown''\<rparr>,
              doc_m2],
        ticks = 0,
        calls = [CallUpsert (JStr ''m1''), CallUpsert (JStr ''m2'')],
        console = [Connected, Processing ''1.json'', Done ''1.json'',
          Processing ''2.json'', Failed ''2.json'' (SyntaxError ''Unexpected end of JSON input''),
          Processing ''3.json'', Done ''3.json'', Disconnected]\<rparr>
   \<and> fst (main pf clock0 batch_null empty_world) =
       \<lparr>db = [doc_m1\<lparr>meta_msg_id := None, status := Some ''sent'', profileName := Some ''Unknown''\<rparr>,
              doc_m2],
        ticks = 0,
        calls = [CallUpsert (JStr ''m1''), CallUpsert (JStr ''m2'')],
        console = [Connected, Processing ''1.json'', Done ''1.json'',
          Processing ''2.json'', Failed ''2.json'' TypeError,
          Processing ''3.json'', Done ''3.json'', Disconnected]\<rparr>
   \<and> snd (processFile pf clock0 (Inr (flat_payload [JNull] []))
            (isolated_run pf clock0 (json_files [?s1]) empty_world))
       = Some TypeError
   \<and> snd (processFile pf clock0 (Inr (flat_payload [msg_m2] []))
            (isolated_run pf clock0 (json_files [?s1, ?s2]) empty_world))
       = None
   \<and> Inr ?a2 \<in> set (message_inputs (flat_payload [msg_m2] []))
   \<and> Some ''m2'' \<in> msg_id ` set (db (fst (main pf clock0 batch_null empty_world)))
   \<and> db (fst (main pf clock0 batch3 empty_world))
       = db (fst (main pf clock0 [?s1, ?s3] empty_world))
   \<and> snd (main pf clock0 batch_null empty_world) = JUndef"
    by blast
qed

text \<open>A batch that upserts one message and a batch that upserts two write the same
  lines and return the same value: neither carries a count.\<close>

theorem main_reports_no_counts_counterexample:
  "\<forall>pf. console (fst (main pf clock0 [(''a.json'', Inr (flat_payload [msg_m1] []))] empty_world))
     = [Connected, Processing ''a.json'', Done ''a.json'', Disconnected]
   \<and> console (fst (main pf clock0 [(''a.json'', Inr (flat_payload [msg_m1, msg_m2] []))] empty_world))
     = [Connected, Processing ''a.json'', Done ''a.json'', Disconnected]
   \<and> snd (main pf clock0 [(''a.json'', Inr (flat_payload [msg_m1] []))] empty_world) = JUndef
   \<and> snd (main pf clock0 [(''a.json'', Inr (flat_payload [msg_m1, msg_m2] []))] empty_world) = JUndef
   \<and> length (db (fst (main pf clock0 [(''a.json'', Inr (flat_payload [msg_m1] []))] empty_world))) = 1
   \<and> length (db (fst (main pf clock0 [(''a.json'', Inr (flat_payload [msg_m1, msg_m2] []))] empty_world))) = 2"
  by (simp add: main_def json_files_def endsWith_def toLowerCase_def Let_def
      file_defs run_defs flat_payload_def msg_m1_def msg_m2_def empty_world_def number_eval)

subsection \<open>C10: a duplicate message resets the status\<close>

text \<open>
  C10, as the code has it. When \<open>upsertMessage\<close> is given a non-empty \<open>wa_id\<close> and a
  non-empty \<open>msg_id\<close> (a string, a number or a boolean, \<open>k\<close> its text), a document with
  that id is already stored, whatever its status, and the platform accepts the call,
  the status of that document becomes the status of the input (\<^verbatim>\<open>sent\<close> when the
  input has none), and every other field, and every other document, stays as it was.
  The argument that \<open>processFile\<close> builds has the status \<^verbatim>\<open>sent\<close>, so re-ingesting
  such a message event resets the status to \<^verbatim>\<open>sent\<close>.
\<close>

theorem upsertMessage_duplicate_resets_status:
  assumes "truthy (arg_wa_id a)" and "truthy (arg_msg_id a)"
    and "prim_text pf (arg_msg_id a) = Some k"
    and "first_index (\<lambda>x. msg_id x = Some k) (db w) = Some i"
    and "snd (upsertMessage pf clock a w) = None"
  shows "(arg_status a = JStr s \<longrightarrow>
            db (fst (upsertMessage pf clock a w)) = (db w)[i := (db w ! i)\<lparr>status := Some s\<rparr>])
       \<and> (arg_status a = JUndef \<longrightarrow>
            db (fst (upsertMessage pf clock a w)) = (db w)[i := (db w ! i)\<lparr>status := Some ''sent''\<rparr>])
       \<and> (message_input payload v fw fp m = Inr a \<longrightarrow>
            arg_status a = JStr ''sent''
            \<and> db (fst (upsertMessage pf clock a w)) = (db w)[i := (db w ! i)\<lparr>status := Some ''sent''\<rparr>])"
proof -
  from upsertMessage_accepted[OF assms(1,2,3,5)] obtain new where
    st: "cast_update pf ''status'' (default_arg (arg_status a) (JStr ''sent'')) = Assign (status new)"
    and d: "db (fst (upsertMessage pf clock a w)) =
               (case first_index (\<lambda>x. msg_id x = Some k) (db w) of
                  Some i \<Rightarrow> (db w)[i := (db w ! i)\<lparr>status := status new\<rparr>]
                | None \<Rightarrow> db w @ [new])" by blast
  have e: "db (fst (upsertMessage pf clock a w)) = (db w)[i := (db w ! i)\<lparr>status := status new\<rparr>]"
    using d assms(4) by simp
  have p1: "db (fst (upsertMessage pf clock a w)) = (db w)[i := (db w ! i)\<lparr>status := Some s\<rparr>]"
    if "arg_status a = JStr s"
    using st e that by (simp add: default_arg_def)
  have p2: "db (fst (upsertMessage pf clock a w)) = (db w)[i := (db w ! i)\<lparr>status := Some ''sent''\<rparr>]"
    if "arg_status a = JUndef"
    using st e that by (simp add: default_arg_def)
  have p3: "arg_status a = JStr ''sent''
      \<and> db (fst (upsertMessage pf clock a w)) = (db w)[i := (db w ! i)\<lparr>status := Some ''sent''\<rparr>]"
    if "message_input payload v fw fp m = Inr a"
    using message_input_status[OF that] st e by (simp add: default_arg_def)
  from p1 p2 p3 show ?thesis by blast
qed

theorem upsertMessage_duplicate_resets_status_witness:
  "\<forall>pf. message_input JNull JNull JNull (JStr ''Unknown'') msg_m1 = Inr input_m1
   \<and> truthy (arg_wa_id input_m1) \<and> truthy (arg_msg_id input_m1)
   \<and> prim_text pf (arg_msg_id input_m1) = Some ''m1''
   \<and> first_index (\<lambda>x. msg_id x = Some ''m1'') (db world_m1) = Some 0
   \<and> snd (upsertMessage pf clock0 input_m1 world_m1) = None
   \<and> status doc_m1 = Some ''read''
   \<and> db (fst (upsertMessage pf clock0 input_m1 world_m1)) = [doc_m1\<lparr>status := Some ''sent''\<rparr>]
   \<and> snd (upsertMessage pf clock0 (input_m1\<lparr>arg_status := JStr ''delivered''\<rparr>) world_m1) = None
   \<and> db (fst (upsertMessage pf clock0 (input_m1\<lparr>arg_status := JStr ''delivered''\<rparr>) world_m1))
       = [doc_m1\<lparr>status := Some ''delivered''\<rparr>]
   \<and> snd (upsertMessage pf clock0 (input_m1\<lparr>arg_status := JUndef\<rparr>) world_m1) = None
   \<and> db (fst (upsertMessage pf clock0 (input_m1\<lparr>arg_status := JUndef\<rparr>) world_m1))
       = [doc_m1\<lparr>status := Some ''sent''\<rparr>]"
proof (intro allI)
  fix pf
  let ?d = "input_m1\<lparr>arg_status := JStr ''delivered''\<rparr>"
  let ?u = "input_m1\<lparr>arg_status := JUndef\<rparr>"
  have h1: "message_input JNull JNull JNull (JStr ''Unknown'') msg_m1 = Inr input_m1"
    by (simp add: message_input_def msg_m1_def input_m1_def get_def js_or_def js_nc_def)
  have h2: "truthy (arg_wa_id input_m1)" "truthy (arg_wa_id ?d)" "truthy (arg_wa_id ?u)"
    and h3: "truthy (arg_msg_id input_m1)" "truthy (arg_msg_id ?d)" "truthy (arg_msg_id ?u)"
    and h4: "prim_text pf (arg_msg_id input_m1) = Some ''m1''"
      "prim_text pf (arg_msg_id ?d) = Some ''m1''" "prim_text pf (arg_msg_id ?u) = Some ''m1''"
    by (simp_all add: input_m1_def)
  have h5: "first_index (\<lambda>x. msg_id x = Some ''m1'') (db world_m1) = Some 0"
    by (simp add: world_m1_def doc_m1_def)
  have h6: "snd (upsertMessage pf clock0 input_m1 world_m1) = None"
    "snd (upsertMessage pf clock0 ?d world_m1) = None"
    "snd (upsertMessage pf clock0 ?u world_m1) = None"
    by (simp_all add: run_defs input_m1_def world_m1_def doc_m1_def number_eval)
  have d: "db world_m1 = [doc_m1]" "status doc_m1 = Some ''read''"
    "arg_status ?d = JStr ''delivered''" "arg_status ?u = JUndef"
    by (simp_all add: world_m1_def doc_m1_def)
  from upsertMessage_duplicate_resets_status[OF h2(1) h3(1) h4(1) h5 h6(1),
      of "''sent''" JNull JNull JNull "JStr ''Unknown''" msg_m1]
    upsertMessage_duplicate_resets_status[OF h2(2) h3(2) h4(2) h5 h6(2),
      of "''delivered''" JNull JNull JNull "JStr ''Unknown''" msg_m1]
    upsertMessage_duplicate_resets_status[OF h2(3) h3(3) h4(3) h5 h6(3),
      of "''sent''" JNull JNull JNull "JStr ''Unknown''" msg_m1]
    h1 h2(1) h3(1) h4(1) h5 h6 d
  show "message_input JNull JNull JNull (JStr ''Unknown'') msg_m1 = Inr input_m1
   \<and> truthy (arg_wa_id input_m1) \<and> truthy (arg_msg_id input_m1)
   \<and> prim_text pf (arg_msg_id input_m1) = Some ''m1''
   \<and> first_index (\<lambda>x. msg_id x = Some ''m1'') (db world_m1) = Some 0
   \<and> snd (upsertMessage pf clock0 input_m1 world_m1) = None
   \<and> status doc_m1 = Some ''read''
   \<and> db (fst (upsertMessage pf clock0 input_m1 world_m1)) = [doc_m1\<lparr>status := Some ''sent''\<rparr>]
   \<and> snd (upsertMessage pf clock0 ?d world_m1) = None
   \<and> db (fst (upsertMessage pf clock0 ?d world_m1)) = [doc_m1\<lparr>status := Some ''delivered''\<rparr>]
   \<and> snd (upsertMessage pf clock0 ?u world_m1) = None
   \<and> db (fst (upsertMessage pf clock0 ?u world_m1)) = [doc_m1\<lparr>status := Some ''sent''\<rparr>]"
    by simp
qed

text \<open>A stored record with status \<^verbatim>\<open>read\<close> keeps it when the message event that is
  ingested again resolves to no \<open>wa_id\<close> (no sender on the message, no contact in the
  payload): the call returns at its guard.\<close>

theorem upsertMessage_duplicate_without_conversation_counterexample:
  "\<forall>pf. status doc_m1 = Some ''read'' \<and> msg_id doc_m1 = Some ''m1''
   \<and> msg_ref msg_m1_no_sender = JStr ''m1''
   \<and> processFile pf clock0 (Inr (flat_payload [msg_m1_no_sender] [])) world_m1
       = (world_m1\<lparr>calls := [CallUpsert (JStr ''m1'')]\<rparr>, None)
   \<and> db (fst (processFile pf clock0 (Inr (flat_payload [msg_m1_no_sender] [])) world_m1)) = [doc_m1]"
  by (simp add: file_defs run_defs msg_ref_def flat_payload_def msg_m1_no_sender_def
      world_m1_def doc_m1_def)

end
